theory Spec2Isabelle
  imports Complex_Main "HOL-Library.Sublist" "HOL-Library.Char_ord" "HOL-Library.List_Lexorder"
begin

section \<open>Data model\<close>

text \<open>
  Exceptions of the Python code are values: every \<open>raise\<close> and every failing library
  call is a branch returning \<open>Inl\<close>.
\<close>

datatype error =
    ValueError
  | KeyError
  | ZeroDivisionError
  | TypeError
  | IndexError
  | ReadError string
  | DBError string

text \<open>
  A cell of an object-typed pandas column (\<open>InvoiceNo\<close>, \<open>StockCode\<close>): the
  spreadsheet holds text such as \<open>C536365\<close>, plain numbers such as \<open>536365\<close>, or
  nothing (\<open>NaN\<close>).
\<close>

datatype cell = Str string | Num int | NaN

text \<open>A timestamp is a calendar day (its ordinal) and the second within the day.\<close>

type_synonym date = int
type_synonym timestamp = "date \<times> nat"

record raw_row =
  InvoiceNo :: cell
  StockCode :: cell
  Description :: "string option"
  Quantity :: int
  InvoiceDate :: "timestamp option"
  UnitPrice :: "rat option"
  CustomerID :: "int option"
  Country :: "string option"

text \<open>A dataframe as read from the spreadsheet: the header names and the rows.\<close>

record raw_frame =
  columns :: "string list"
  rows :: "raw_row list"

text \<open>The working frame of \<open>_clean_data\<close>: the raw columns and the derived ones.\<close>

record clean_row = raw_row +
  price_flag :: bool
  quantity_flag :: bool
  is_return :: bool
  TotalAmount :: "rat option"
  processed_at :: timestamp

record extract_stats =
  null_drops :: nat
  invalid_price_count :: nat
  high_quantity_count :: nat
  return_count :: nat
  duplicates_removed :: nat

record final_stats = extract_stats +
  initial_rows :: nat
  final_rows :: nat
  rows_dropped :: int
  drop_rate :: rat

section \<open>Library operations used by the code\<close>

subsection \<open>\<open>str(int)\<close>, \<open>astype(str)\<close>, \<open>str.startswith\<close>\<close>

definition digit_char :: "nat \<Rightarrow> char" where
  "digit_char d = ''0123456789'' ! d"

fun digits :: "nat \<Rightarrow> string" where
  "digits n = (if n < 10 then [digit_char n] else digits (n div 10) @ [digit_char (n mod 10)])"

declare digits.simps [simp del]

definition str_of_int :: "int \<Rightarrow> string" where
  "str_of_int i = (if i < 0 then CHR ''-'' # digits (nat (- i)) else digits (nat i))"

text \<open>\<open>Series.astype(str)\<close> on an object column: text stays, a number is printed, a
  missing value becomes the text \<open>nan\<close>.\<close>

fun astype_str :: "cell \<Rightarrow> string" where
  "astype_str (Str s) = s"
| "astype_str (Num i) = str_of_int i"
| "astype_str NaN = ''nan''"

definition startswith :: "string \<Rightarrow> string \<Rightarrow> bool" where
  "startswith s p = (take (length p) s = p)"

subsection \<open>\<open>DataFrame.drop_duplicates(subset=...)\<close>, with the default \<open>keep='first'\<close>\<close>

text \<open>Rows are scanned in input order; a row is kept when its key has not been seen.
  Missing values compare equal to each other here, as in pandas' \<open>duplicated\<close>.\<close>

fun drop_dups_from :: "('r \<Rightarrow> 'k) \<Rightarrow> 'k list \<Rightarrow> 'r list \<Rightarrow> 'r list" where
  "drop_dups_from key seen [] = []"
| "drop_dups_from key seen (r # rs) =
     (if key r \<in> set seen then drop_dups_from key seen rs
      else r # drop_dups_from key (key r # seen) rs)"

definition drop_duplicates :: "('r \<Rightarrow> 'k) \<Rightarrow> 'r list \<Rightarrow> 'r list" where
  "drop_duplicates key rs = drop_dups_from key [] rs"

subsection \<open>Double-precision floats\<close>

text \<open>
  Python's \<open>float\<close> and NumPy's \<open>float64\<close> are IEEE 754 doubles: a finite double is a
  rational \<open>m * 2 ^ e\<close> with an integer \<open>m\<close> below \<open>2 ^ 53\<close> in magnitude and
  \<open>e \<ge> -1074\<close>, and every arithmetic operation returns the double nearest to the exact
  result, a tie going to the even \<open>m\<close>. \<open>f64 x\<close> is that nearest double: \<open>scale_down\<close>
  and \<open>scale_up\<close> bring \<open>\<bar>x\<bar>\<close> into \<open>[2 ^ 52, 2 ^ 53)\<close> (or stop at the exponent
  \<open>-1074\<close> of the subnormal doubles), where rounding to a double is rounding to an
  integer. Results beyond the largest finite double (about \<open>1.8e308\<close>) are infinite in
  the code and are not modelled.
\<close>

definition round_half_even :: "rat \<Rightarrow> int" where
  "round_half_even x =
     (let f = \<lfloor>x\<rfloor>; d = x - of_int f
      in if d < 1 / 2 then f else if 1 / 2 < d then f + 1 else if even f then f else f + 1)"

definition two_p52 :: rat where
  "two_p52 = 4503599627370496"

function scale_down :: "rat \<Rightarrow> int \<Rightarrow> rat \<times> int" where
  "scale_down a e = (if 2 * two_p52 \<le> a then scale_down (a / 2) (e + 1) else (a, e))"
  by pat_completeness auto
termination
proof (relation "measure (\<lambda>(a, e). nat \<lfloor>a\<rfloor>)")
  show "wf (measure (\<lambda>(a, e). nat \<lfloor>a\<rfloor>))" by simp
next
  fix a :: rat and e :: int
  assume h: "2 * two_p52 \<le> a"
  then have "1 \<le> a / 2" by (simp add: two_p52_def)
  then have "a / 2 + 1 \<le> a" by simp
  then have "\<lfloor>a / 2\<rfloor> + 1 \<le> \<lfloor>a\<rfloor>" by linarith
  moreover from h have "0 \<le> \<lfloor>a / 2\<rfloor>" by (simp add: two_p52_def)
  ultimately have "nat \<lfloor>a / 2\<rfloor> < nat \<lfloor>a\<rfloor>" by linarith
  then show "((a / 2, e + 1), (a, e)) \<in> measure (\<lambda>(a, e). nat \<lfloor>a\<rfloor>)" by simp
qed

function scale_up :: "rat \<Rightarrow> int \<Rightarrow> rat \<times> int" where
  "scale_up a e = (if a < two_p52 \<and> - 1074 < e then scale_up (a * 2) (e - 1) else (a, e))"
  by pat_completeness auto
termination
  by (relation "measure (\<lambda>(a, e). nat (e + 1074))") auto

declare scale_down.simps [simp del] scale_up.simps [simp del]

definition pow2 :: "int \<Rightarrow> rat" where
  "pow2 e = (if 0 \<le> e then 2 ^ nat e else 1 / 2 ^ nat (- e))"

definition f64 :: "rat \<Rightarrow> rat" where
  "f64 x =
     (if x = 0 then 0
      else case (if 2 * two_p52 \<le> \<bar>x\<bar> then scale_down \<bar>x\<bar> 0 else scale_up \<bar>x\<bar> 0) of
             (m, e) \<Rightarrow> sgn x * of_int (round_half_even m) * pow2 e)"

definition fadd :: "rat \<Rightarrow> rat \<Rightarrow> rat" where
  "fadd a b = f64 (a + b)"

definition fsub :: "rat \<Rightarrow> rat \<Rightarrow> rat" where
  "fsub a b = f64 (a - b)"

definition fmul :: "rat \<Rightarrow> rat \<Rightarrow> rat" where
  "fmul a b = f64 (a * b)"

subsection \<open>\<open>round(x, 2)\<close>\<close>

text \<open>Python's \<open>round\<close> on a float takes the exact value of the double to the nearest
  multiple of \<open>0.01\<close>, a tie going to the even one, and returns the double nearest to
  that decimal.\<close>

definition py_round2 :: "rat \<Rightarrow> rat" where
  "py_round2 x = f64 (of_int (round_half_even (x * 100)) / 100)"

section \<open>Staging cleaner (\<open>retail_extract.py\<close>)\<close>

definition DEDUP_KEYS :: "('a raw_row_scheme) \<Rightarrow> cell \<times> cell \<times> timestamp option" where
  "DEDUP_KEYS r = (InvoiceNo r, StockCode r, InvoiceDate r)"

definition column_mapping :: "string \<Rightarrow> string" where
  "column_mapping c =
     (if c = ''Customer ID'' then ''CustomerID''
      else if c = ''Invoice'' then ''InvoiceNo''
      else if c = ''Price'' then ''UnitPrice''
      else c)"

definition rename_columns :: "raw_frame \<Rightarrow> raw_frame" where
  "rename_columns df = df\<lparr>columns := map column_mapping (columns df)\<rparr>"

definition required_cols :: "string list" where
  "required_cols = [''InvoiceNo'', ''StockCode'', ''InvoiceDate'', ''CustomerID'']"

text \<open>\<open>dropna(subset=["CustomerID", "StockCode", "InvoiceDate"])\<close> keeps a row when none
  of the three is missing.\<close>

definition has_critical_fields :: "raw_row \<Rightarrow> bool" where
  "has_critical_fields r = (CustomerID r \<noteq> None \<and> StockCode r \<noteq> NaN \<and> InvoiceDate r \<noteq> None)"

definition invalid_price_mask :: "raw_row \<Rightarrow> bool" where
  "invalid_price_mask r = (case UnitPrice r of None \<Rightarrow> True | Some p \<Rightarrow> p \<le> 0)"

definition high_qty_mask :: "raw_row \<Rightarrow> bool" where
  "high_qty_mask r = (Quantity r > 1000)"

definition return_mask :: "raw_row \<Rightarrow> bool" where
  "return_mask r = (startswith (astype_str (InvoiceNo r)) ''C'' \<or> Quantity r < 0)"

definition flag_row :: "raw_row \<Rightarrow> clean_row" where
  "flag_row r = raw_row.extend r
     \<lparr>price_flag = invalid_price_mask r, quantity_flag = high_qty_mask r,
      is_return = return_mask r, TotalAmount = None, processed_at = (0, 0)\<rparr>"

definition finish_row :: "timestamp \<Rightarrow> clean_row \<Rightarrow> clean_row" where
  "finish_row now r =
     r\<lparr>TotalAmount := map_option (\<lambda>p. of_int (Quantity r) * p) (UnitPrice r),
       processed_at := now\<rparr>"

text \<open>
  \<open>_clean_data\<close>: the required columns are checked first (\<open>ValueError\<close>); reading the
  \<open>UnitPrice\<close> or \<open>Quantity\<close> column of a frame without it is a \<open>KeyError\<close>. The clock
  read by \<open>pd.Timestamp.now()\<close> is the parameter \<open>now\<close>.
\<close>

definition clean_data :: "timestamp \<Rightarrow> raw_frame \<Rightarrow> error + (clean_row list \<times> extract_stats)" where
  "clean_data now df =
     (if \<exists>c \<in> set required_cols. c \<notin> set (columns df) then Inl ValueError
      else
        let initial_count = length (rows df);
            df_work = filter has_critical_fields (rows df)
        in if ''UnitPrice'' \<notin> set (columns df) then Inl KeyError
           else if ''Quantity'' \<notin> set (columns df) then Inl KeyError
           else
             let flagged = map flag_row df_work;
                 before_dedup = length flagged;
                 deduped = drop_duplicates DEDUP_KEYS flagged
             in Inr (map (finish_row now) deduped,
                     \<lparr>null_drops = initial_count - length df_work,
                      invalid_price_count = length (filter invalid_price_mask df_work),
                      high_quantity_count = length (filter high_qty_mask df_work),
                      return_count = length (filter return_mask df_work),
                      duplicates_removed = before_dedup - length deduped\<rparr>))"

text \<open>\<open>extract_from_excel\<close>: the argument is what \<open>pd.read_excel\<close> returned or raised.
  The division \<open>(initial_count - len(df_clean)) / initial_count\<close> is Python's true
  division of integers: it raises on a zero divisor and returns the double nearest to the
  quotient otherwise; the product with 100 is a float product.\<close>

definition py_truediv :: "int \<Rightarrow> int \<Rightarrow> error + rat" where
  "py_truediv a b = (if b = 0 then Inl ZeroDivisionError else Inr (f64 (of_int a / of_int b)))"

definition extract_from_excel ::
  "timestamp \<Rightarrow> error + raw_frame \<Rightarrow> error + (clean_row list \<times> final_stats)" where
  "extract_from_excel now read_excel =
     (case read_excel of
        Inl e \<Rightarrow> Inl e
      | Inr df_raw \<Rightarrow>
          let initial_count = length (rows df_raw) in
          (case clean_data now (rename_columns df_raw) of
             Inl e \<Rightarrow> Inl e
           | Inr (df_clean, stats) \<Rightarrow>
               (case py_truediv (int initial_count - int (length df_clean)) (int initial_count) of
                  Inl e \<Rightarrow> Inl e
                | Inr q \<Rightarrow>
                    Inr (df_clean,
                         extract_stats.extend stats
                           \<lparr>initial_rows = initial_count,
                            final_rows = length df_clean,
                            rows_dropped = int initial_count - int (length df_clean),
                            drop_rate = py_round2 (fmul q 100)\<rparr>))))"


text \<open>The frame \<open>_clean_data\<close> returns, seen as an input of \<open>_clean_data\<close> again: the
  derived columns are there already and are computed anew.\<close>

definition derived_cols :: "string list" where
  "derived_cols = [''price_flag'', ''quantity_flag'', ''is_return'', ''TotalAmount'', ''processed_at'']"

definition clean_frame :: "raw_frame \<Rightarrow> clean_row list \<Rightarrow> raw_frame" where
  "clean_frame df out = \<lparr>columns = columns df @ derived_cols, rows = map raw_row.truncate out\<rparr>"

section \<open>Staging table\<close>

record staging_row =
  invoice :: "string option"
  stock_code :: "string option"
  description :: "string option"
  quantity :: int
  invoice_date :: "timestamp option"
  price :: "rat option"
  customer_id :: "int option"
  country :: "string option"

text \<open>Modelled from the spec: the DDL of \<open>raw_retail_data\<close> is not among the source
  files. The spec's data model gives the invoice identifier and the stock code as strings,
  so a cell of these columns is stored as its text and a missing one as \<open>NULL\<close>.\<close>

fun db_text :: "cell \<Rightarrow> string option" where
  "db_text (Str s) = Some s"
| "db_text (Num i) = Some (str_of_int i)"
| "db_text NaN = None"

text \<open>The row \<open>load_to_staging\<close> writes: the columns of its \<open>column_mapping\<close>, restricted
  to \<open>db_columns\<close>.\<close>

definition staging_of :: "clean_row \<Rightarrow> staging_row" where
  "staging_of r =
     \<lparr>invoice = db_text (InvoiceNo r), stock_code = db_text (StockCode r),
      description = Description r, quantity = Quantity r, invoice_date = InvoiceDate r,
      price = UnitPrice r, customer_id = CustomerID r, country = Country r\<rparr>"

text \<open>\<open>astype(str)\<close> on a column read back from the database: \<open>NULL\<close> arrives as Python's
  \<open>None\<close> and prints as \<open>None\<close>.\<close>

fun astype_str_obj :: "string option \<Rightarrow> string" where
  "astype_str_obj (Some s) = s"
| "astype_str_obj None = ''None''"

section \<open>Dimension and fact builder (\<open>retail_transform.py\<close>)\<close>

subsection \<open>Product dimension\<close>

primrec dropna :: "'a option list \<Rightarrow> 'a list" where
  "dropna [] = []"
| "dropna (x # xs) = (case x of None \<Rightarrow> dropna xs | Some v \<Rightarrow> v # dropna xs)"

definition max_count :: "'a list \<Rightarrow> nat" where
  "max_count vs = fold max (map (count_list vs) vs) 0"

text \<open>\<open>Series.mode()\<close>: missing values are left out, the values of the highest count are
  returned in ascending order.\<close>

definition mode :: "('a::linorder) option list \<Rightarrow> 'a list" where
  "mode x = (let vs = dropna x in sort (remdups (filter (\<lambda>v. count_list vs v = max_count vs) vs)))"

text \<open>The aggregation \<open>lambda x: x.mode().iloc[0] if not x.mode().empty else x.iloc[0]\<close>.\<close>

definition agg_description :: "string option list \<Rightarrow> error + string option" where
  "agg_description x =
     (case mode x of
        m # _ \<Rightarrow> Inr (Some m)
      | [] \<Rightarrow> (case x of [] \<Rightarrow> Inl IndexError | a # _ \<Rightarrow> Inr a))"

record product_row =
  stock_code :: string
  description :: "string option"

text \<open>\<open>groupby('stock_code')\<close>: one group per distinct non-missing code, the groups in
  ascending order of the code, each holding its rows in input order.\<close>

definition group_keys :: "staging_row list \<Rightarrow> string list" where
  "group_keys df = sort (remdups (dropna (map staging_row.stock_code df)))"

definition group_of :: "staging_row list \<Rightarrow> string \<Rightarrow> string option list" where
  "group_of df k = map staging_row.description (filter (\<lambda>r. staging_row.stock_code r = Some k) df)"

fun sequence_err :: "(error + 'a) list \<Rightarrow> error + 'a list" where
  "sequence_err [] = Inr []"
| "sequence_err (x # xs) =
     (case x of
        Inl e \<Rightarrow> Inl e
      | Inr v \<Rightarrow> (case sequence_err xs of Inl e \<Rightarrow> Inl e | Inr vs \<Rightarrow> Inr (v # vs)))"

definition product_of_group :: "staging_row list \<Rightarrow> string \<Rightarrow> error + product_row" where
  "product_of_group df k =
     (case agg_description (group_of df k) of
        Inl e \<Rightarrow> Inl e
      | Inr d \<Rightarrow> Inr \<lparr>stock_code = k, description = d\<rparr>)"

definition transform_product_dimension :: "staging_row list \<Rightarrow> error + product_row list" where
  "transform_product_dimension df = sequence_err (map (product_of_group df) (group_keys df))"

text \<open>The tie-break as the specification words it, for comparison: the most frequent
  description, the first one seen in input order among those tied.\<close>

definition first_seen_mode :: "'a option list \<Rightarrow> 'a option" where
  "first_seen_mode x = (let vs = dropna x in find (\<lambda>v. count_list vs v = max_count vs) vs)"

subsection \<open>Sales fact\<close>

record dimension_keys =
  products :: "string \<rightharpoonup> nat"
  customers :: "int \<rightharpoonup> nat"
  countries :: "string \<rightharpoonup> nat"
  time :: "date \<rightharpoonup> nat"

record fact_row =
  invoice_no :: "string option"
  product_key :: "nat option"
  customer_key :: "nat option"
  time_key :: "nat option"
  country_key :: "nat option"
  quantity :: int
  unit_price :: "rat option"
  total_amount :: "rat option"
  is_return :: bool

text \<open>\<open>Series.map(dict)\<close>: a missing value and a key the dictionary lacks both give a
  missing value.\<close>

definition series_map :: "('k \<rightharpoonup> 'v) \<Rightarrow> 'k option \<Rightarrow> 'v option" where
  "series_map m v = (case v of None \<Rightarrow> None | Some k \<Rightarrow> m k)"

definition fact_is_return :: "staging_row \<Rightarrow> bool" where
  "fact_is_return r =
     (startswith (astype_str_obj (invoice r)) ''C'' \<or> staging_row.quantity r < 0)"

definition fact_of :: "dimension_keys \<Rightarrow> staging_row \<Rightarrow> fact_row" where
  "fact_of keys r =
     \<lparr>invoice_no = invoice r,
      product_key = series_map (products keys) (staging_row.stock_code r),
      customer_key = series_map (customers keys) (customer_id r),
      time_key = series_map (time keys) (map_option fst (invoice_date r)),
      country_key = series_map (countries keys) (country r),
      quantity = staging_row.quantity r,
      unit_price = price r,
      total_amount = map_option (\<lambda>p. of_int (staging_row.quantity r) * p) (price r),
      is_return = fact_is_return r\<rparr>"

text \<open>\<open>dropna(subset=['product_key', 'customer_key', 'time_key'])\<close>.\<close>

definition has_keys :: "fact_row \<Rightarrow> bool" where
  "has_keys f = (product_key f \<noteq> None \<and> customer_key f \<noteq> None \<and> time_key f \<noteq> None)"

definition fact_dedup_key :: "fact_row \<Rightarrow> string option \<times> nat option \<times> nat option" where
  "fact_dedup_key f = (invoice_no f, product_key f, time_key f)"

definition transform_fact_sales :: "staging_row list \<Rightarrow> dimension_keys \<Rightarrow> fact_row list" where
  "transform_fact_sales df keys =
     (let sales_fact = map (fact_of keys) df;
          after_cleanup = filter has_keys sales_fact
      in drop_duplicates fact_dedup_key after_cleanup)"


subsection \<open>Fact load\<close>

datatype if_exists = Replace | Append | Fail

text \<open>The warehouse table is absent (\<open>None\<close>) or holds rows. Whether the database accepts
  the \<open>TRUNCATE\<close> and each batch insert is outside the program: \<open>truncate_ok\<close> and
  \<open>batch_ok\<close> (by batch number, from 0) say so.\<close>

record db_faults =
  truncate_ok :: bool
  batch_ok :: "nat \<Rightarrow> bool"

record load_stats =
  table_name :: string
  rows_loaded :: nat
  load_timestamp :: string

definition truncate_table :: "db_faults \<Rightarrow> 'r list option \<Rightarrow> error option \<times> 'r list option" where
  "truncate_table flt t =
     (if \<not> truncate_ok flt then (Some (DBError ''truncate''), t)
      else case t of
             None \<Rightarrow> (Some (DBError ''no such table''), t)
           | Some _ \<Rightarrow> (None, Some []))"

text \<open>\<open>DataFrame.to_sql(table, if_exists=...)\<close> for one batch.\<close>

definition to_sql :: "db_faults \<Rightarrow> nat \<Rightarrow> if_exists \<Rightarrow> 'r list \<Rightarrow> 'r list option
    \<Rightarrow> error option \<times> 'r list option" where
  "to_sql flt k exists_mode batch t =
     (if \<not> batch_ok flt k then (Some (DBError ''insert''), t)
      else case t of
             None \<Rightarrow> (None, Some batch)
           | Some old \<Rightarrow>
               (case exists_mode of
                  Fail \<Rightarrow> (Some ValueError, t)
                | Replace \<Rightarrow> (None, Some batch)
                | Append \<Rightarrow> (None, Some (old @ batch))))"

definition batch_size :: nat where
  "batch_size = 5000"

text \<open>The slices \<open>df.iloc[i:min(i + batch_size, total_rows)]\<close> for
  \<open>i in range(0, total_rows, batch_size)\<close>.\<close>

function batches :: "nat \<Rightarrow> 'r list \<Rightarrow> 'r list list" where
  "batches n xs = (if n = 0 \<or> xs = [] then [] else take n xs # batches n (drop n xs))"
  by pat_completeness auto
termination
  by (relation "measure (\<lambda>(n, xs). length xs)") auto

declare batches.simps [simp del]

fun load_batches :: "db_faults \<Rightarrow> nat \<Rightarrow> if_exists \<Rightarrow> 'r list list \<Rightarrow> 'r list option
    \<Rightarrow> error option \<times> 'r list option" where
  "load_batches flt k exists_mode [] t = (None, t)"
| "load_batches flt k exists_mode (b # bs) t =
     (case to_sql flt k exists_mode b t of
        (Some e, t') \<Rightarrow> (Some e, t')
      | (None, t') \<Rightarrow> load_batches flt (Suc k) exists_mode bs t')"

text \<open>\<open>load_fact\<close> returns its statistics or the exception it re-raises, and the table as
  it is left. The clock is the parameter \<open>now\<close>.\<close>

definition load_fact :: "db_faults \<Rightarrow> string \<Rightarrow> 'r list \<Rightarrow> string \<Rightarrow> if_exists \<Rightarrow> 'r list option
    \<Rightarrow> (error + load_stats) \<times> 'r list option" where
  "load_fact flt now df tname exists_mode t =
     (let total_rows = length df;
          cleared = (if exists_mode = Replace \<and> total_rows > 0
                     then (case truncate_table flt t of
                             (Some e, t') \<Rightarrow> (Some e, t', exists_mode)
                           | (None, t') \<Rightarrow> (None, t', Append))
                     else (None, t, exists_mode))
      in case cleared of
           (Some e, t', _) \<Rightarrow> (Inl e, t')
         | (None, t', mode') \<Rightarrow>
             (case load_batches flt 0 mode' (batches batch_size df) t' of
                (Some e, t'') \<Rightarrow> (Inl e, t'')
              | (None, t'') \<Rightarrow>
                  (Inr \<lparr>table_name = tname, rows_loaded = length df, load_timestamp = now\<rparr>, t'')))"

section \<open>Anomaly scorer (\<open>quality_monitoring.py\<close>)\<close>

subsection \<open>Daily sales range\<close>

datatype outlier_type = Low | High | Normal

record daily_row =
  date_value :: date
  daily_sales :: rat
  total_transactions :: nat
  daily_returns :: rat
  return_transactions :: nat

text \<open>\<open>pd.read_sql\<close> hands the amounts over as \<open>float64\<close>: an exact numeric of the database
  becomes the nearest double, a double stays as it is.\<close>

definition read_daily_sales :: "daily_row list \<Rightarrow> daily_row list" where
  "read_daily_sales query_rows =
     map (\<lambda>r. r\<lparr>daily_sales := f64 (daily_sales r), daily_returns := f64 (daily_returns r)\<rparr>)
       query_rows"

text \<open>NumPy's interpolation between two neighbours, \<open>_lerp(a, b, t)\<close>: \<open>a + (b - a) * t\<close>,
  and \<open>b - (b - a) * (1 - t)\<close> where \<open>t >= 0.5\<close>, every operation in \<open>float64\<close>.\<close>

definition lerp :: "rat \<Rightarrow> rat \<Rightarrow> rat \<Rightarrow> rat" where
  "lerp a b t =
     (let diff_b_a = fsub b a
      in if 1 / 2 \<le> t then fsub b (fmul diff_b_a (fsub 1 t)) else fadd a (fmul diff_b_a t))"

text \<open>\<open>Series.quantile(q)\<close> with the default linear interpolation, as NumPy (1.22 and
  later) computes it for pandas: the virtual index \<open>(n - 1) * q\<close> into the sorted values,
  its two neighbours (an index past the end is the last one) and \<open>_lerp\<close> at the
  fractional part. pandas hands \<open>q * 100\<close> to \<open>np.percentile\<close>, which divides by 100
  again; both steps are exact for the quantiles \<open>0.25\<close> and \<open>0.75\<close> that the code asks
  for. An empty series has no quantile (\<open>NaN\<close>).\<close>

definition quantile :: "rat list \<Rightarrow> rat \<Rightarrow> rat option" where
  "quantile xs q =
     (if xs = [] then None
      else
        let s = sort xs;
            virtual_index = fmul (of_nat (length xs - 1)) q;
            previous_index = min (nat \<lfloor>virtual_index\<rfloor>) (length xs - 1);
            next_index = min (previous_index + 1) (length xs - 1);
            gamma = fsub virtual_index (of_nat previous_index)
        in Some (lerp (s ! previous_index) (s ! next_index) gamma))"

text \<open>The columns \<open>mean_sales\<close>, \<open>std_sales\<close> and \<open>z_score\<close> are statistics attached for
  context and are left out; no other column depends on them.\<close>

record scored_day = daily_row +
  is_outlier :: bool
  outlier_type :: outlier_type
  quality_score :: nat

text \<open>\<open>iqr = q75 - q25\<close>, \<open>lower_bound = q25 - 1.5 * iqr\<close> and
  \<open>upper_bound = q75 + 1.5 * iqr\<close>, in \<open>float64\<close>.\<close>

definition lower_bound :: "rat list \<Rightarrow> rat option" where
  "lower_bound xs =
     (case (quantile xs (1 / 4), quantile xs (3 / 4)) of
        (Some q25, Some q75) \<Rightarrow> Some (fsub q25 (fmul (3 / 2) (fsub q75 q25)))
      | _ \<Rightarrow> None)"

definition upper_bound :: "rat list \<Rightarrow> rat option" where
  "upper_bound xs =
     (case (quantile xs (1 / 4), quantile xs (3 / 4)) of
        (Some q25, Some q75) \<Rightarrow> Some (fadd q75 (fmul (3 / 2) (fsub q75 q25)))
      | _ \<Rightarrow> None)"

text \<open>A comparison with \<open>NaN\<close> is false.\<close>

definition lt_nan :: "rat \<Rightarrow> rat option \<Rightarrow> bool" where
  "lt_nan x b = (case b of None \<Rightarrow> False | Some v \<Rightarrow> x < v)"

definition gt_nan :: "rat \<Rightarrow> rat option \<Rightarrow> bool" where
  "gt_nan x b = (case b of None \<Rightarrow> False | Some v \<Rightarrow> x > v)"

definition score_day :: "rat option \<Rightarrow> rat option \<Rightarrow> daily_row \<Rightarrow> scored_day" where
  "score_day lower upper r =
     (let outlier = (lt_nan (daily_sales r) lower \<or> gt_nan (daily_sales r) upper)
      in daily_row.extend r
           \<lparr>is_outlier = outlier,
            outlier_type = (if lt_nan (daily_sales r) lower then Low
                            else if gt_nan (daily_sales r) upper then High
                            else Normal),
            quality_score = (if outlier then 85 else 100)\<rparr>)"

text \<open>\<open>check_daily_sales_range\<close> on the rows its query returns.\<close>

definition check_daily_sales_range :: "daily_row list \<Rightarrow> scored_day list" where
  "check_daily_sales_range query_rows =
     (let df = read_daily_sales query_rows;
          series = map daily_sales df
      in map (score_day (lower_bound series) (upper_bound series)) df)"

subsection \<open>Missing customer rate\<close>

text \<open>The rate is a two-decimal numeric of the database; it is kept as the exact
  rational here.\<close>

datatype quality_status = Good | Warning | Critical

text \<open>\<open>ROUND(x, 2)\<close> of the database on an exact numeric: to the nearest multiple of
  \<open>0.01\<close>, a tie going away from zero.\<close>

definition sql_round2 :: "rat \<Rightarrow> rat" where
  "sql_round2 x =
     (if 0 \<le> x then of_int \<lfloor>x * 100 + 1 / 2\<rfloor> / 100 else - (of_int \<lfloor>- x * 100 + 1 / 2\<rfloor> / 100))"

text \<open>One group of the query: \<open>COUNT(*)\<close> and \<open>COUNT(f.customer_key)\<close> of a date. A group
  has at least one row.\<close>

record customer_counts =
  date_value :: date
  total_transactions :: nat
  transactions_with_customer :: nat

record missing_row = customer_counts +
  missing_customers :: nat
  missing_customer_rate :: rat
  quality_status :: quality_status
  quality_score :: rat

definition rate_of_counts :: "customer_counts \<Rightarrow> rat" where
  "rate_of_counts g =
     sql_round2 (of_nat (customer_counts.total_transactions g - transactions_with_customer g) * 100
                 / of_nat (customer_counts.total_transactions g))"

definition threshold_missing :: rat where
  "threshold_missing = 5"

definition status_of_rate :: "rat \<Rightarrow> quality_status" where
  "status_of_rate x =
     (if x \<le> threshold_missing then Good
      else if x \<le> threshold_missing * 2 then Warning
      else Critical)"

definition score_of_rate :: "rat \<Rightarrow> rat" where
  "score_of_rate x =
     (if x \<le> threshold_missing then 100 else max 50 (100 - (x - threshold_missing) * 10))"

definition missing_of_counts :: "customer_counts \<Rightarrow> missing_row" where
  "missing_of_counts g =
     customer_counts.extend g
       \<lparr>missing_customers = customer_counts.total_transactions g - transactions_with_customer g,
        missing_customer_rate = rate_of_counts g,
        quality_status = status_of_rate (rate_of_counts g),
        quality_score = score_of_rate (rate_of_counts g)\<rparr>"

definition check_missing_customer_rate :: "customer_counts list \<Rightarrow> missing_row list" where
  "check_missing_customer_rate groups = map missing_of_counts groups"


section \<open>Quality rule engine (\<open>data_quality.py\<close>)\<close>

text \<open>A value of a query result is a number or \<open>NULL\<close> (Python's \<open>None\<close>); a result row
  is a dictionary from column names.\<close>

type_synonym sql_value = "rat option"
type_synonym query_row = "string \<rightharpoonup> sql_value"

text \<open>The SQL text of a check is not interpreted: the database is the function from a
  check's name to what executing its query gives, an exception or the row of
  \<open>fetchone()\<close>.\<close>

type_synonym database = "string \<Rightarrow> error + query_row option"

record check =
  name :: string
  description :: string
  threshold :: rat
  critical :: bool

definition null_critical_fields :: check where
  "null_critical_fields =
     \<lparr>name = ''null_critical_fields'', description = ''Check for nulls in critical fields'',
      threshold = 5 / 100, critical = True\<rparr>"

definition duplicate_records :: check where
  "duplicate_records =
     \<lparr>name = ''duplicate_records'', description = ''Check for duplicate records'',
      threshold = 1 / 100, critical = False\<rparr>"

definition data_range_validation :: check where
  "data_range_validation =
     \<lparr>name = ''data_range_validation'', description = ''Validate data ranges'',
      threshold = 1 / 10, critical = False\<rparr>"

definition referential_integrity :: check where
  "referential_integrity =
     \<lparr>name = ''referential_integrity'', description = ''Check referential integrity'',
      threshold = 0, critical = True\<rparr>"

definition business_logic :: check where
  "business_logic =
     \<lparr>name = ''business_logic'', description = ''Validate business calculations'',
      threshold = 0, critical = True\<rparr>"

definition data_freshness :: check where
  "data_freshness =
     \<lparr>name = ''data_freshness'', description = ''Check data freshness'',
      threshold = 48, critical = False\<rparr>"

definition row_count_validation :: check where
  "row_count_validation =
     \<lparr>name = ''row_count_validation'', description = ''Validate expected row counts'',
      threshold = 95 / 100, critical = True\<rparr>"

definition quality_rules :: "(string \<times> check list) list" where
  "quality_rules =
     [(''raw_data_checks'', [null_critical_fields, duplicate_records, data_range_validation]),
      (''warehouse_checks'', [referential_integrity, business_logic]),
      (''performance_checks'', [data_freshness, row_count_validation])]"

subsection \<open>Python arithmetic on result values\<close>

text \<open>Arithmetic and ordering on \<open>None\<close> raise \<open>TypeError\<close>, division by zero raises
  \<open>ZeroDivisionError\<close>; \<open>==\<close> never raises. The left operand is evaluated first.\<close>

definition py_num :: "sql_value \<Rightarrow> error + rat" where
  "py_num v = (case v of None \<Rightarrow> Inl TypeError | Some x \<Rightarrow> Inr x)"

definition py_binop :: "(rat \<Rightarrow> rat \<Rightarrow> error + 'a) \<Rightarrow> error + rat \<Rightarrow> error + rat \<Rightarrow> error + 'a" where
  "py_binop f a b =
     (case a of Inl e \<Rightarrow> Inl e | Inr x \<Rightarrow> (case b of Inl e \<Rightarrow> Inl e | Inr y \<Rightarrow> f x y))"

definition py_add :: "error + rat \<Rightarrow> error + rat \<Rightarrow> error + rat" where
  "py_add = py_binop (\<lambda>x y. Inr (x + y))"

definition py_sub :: "error + rat \<Rightarrow> error + rat \<Rightarrow> error + rat" where
  "py_sub = py_binop (\<lambda>x y. Inr (x - y))"

definition py_mul :: "error + rat \<Rightarrow> error + rat \<Rightarrow> error + rat" where
  "py_mul = py_binop (\<lambda>x y. Inr (x * y))"

definition py_div :: "error + rat \<Rightarrow> error + rat \<Rightarrow> error + rat" where
  "py_div = py_binop (\<lambda>x y. if y = 0 then Inl ZeroDivisionError else Inr (x / y))"

definition py_le :: "error + rat \<Rightarrow> error + rat \<Rightarrow> error + bool" where
  "py_le = py_binop (\<lambda>x y. Inr (x \<le> y))"

definition py_ge :: "error + rat \<Rightarrow> error + rat \<Rightarrow> error + bool" where
  "py_ge = py_binop (\<lambda>x y. Inr (x \<ge> y))"

text \<open>\<open>result.get(key, default)\<close>.\<close>

definition dict_get :: "query_row \<Rightarrow> string \<Rightarrow> rat \<Rightarrow> sql_value" where
  "dict_get result k d = (case result k of None \<Rightarrow> Some d | Some v \<Rightarrow> v)"

subsection \<open>\<open>_evaluate_check_result\<close>\<close>

definition evaluate_check_result :: "check \<Rightarrow> query_row \<Rightarrow> error + bool" where
  "evaluate_check_result check result =
     (let check_name = name check; thr = Inr (threshold check) in
      if check_name = ''null_critical_fields'' then
        (let total_rows = dict_get result ''total_rows'' 0 in
         if total_rows = Some 0 then Inr False
         else py_le
                (py_div
                   (py_add
                      (py_add (py_num (dict_get result ''null_customer_id'' 0))
                              (py_num (dict_get result ''null_stock_code'' 0)))
                      (py_num (dict_get result ''null_invoice_date'' 0)))
                   (py_mul (py_num total_rows) (Inr 3)))
                thr)
      else if check_name = ''duplicate_records'' then
        (let total = dict_get result ''total_records'' 0;
             unique = dict_get result ''unique_combinations'' 0 in
         if total = Some 0 then Inr True
         else py_le (py_div (py_sub (py_num total) (py_num unique)) (py_num total)) thr)
      else if check_name = ''data_range_validation'' then
        (let total_rows = dict_get result ''total_rows'' 0 in
         if total_rows = Some 0 then Inr False
         else py_le
                (py_div
                   (py_add (py_num (dict_get result ''invalid_price'' 0))
                           (py_num (dict_get result ''suspicious_quantity'' 0)))
                   (py_num total_rows))
                thr)
      else if check_name = ''referential_integrity'' then
        Inr (dict_get result ''orphaned_products'' 0 = Some 0 \<and>
             dict_get result ''orphaned_customers'' 0 = Some 0 \<and>
             dict_get result ''orphaned_times'' 0 = Some 0)
      else if check_name = ''business_logic'' then
        Inr (dict_get result ''calculation_errors'' 0 = Some 0 \<and>
             dict_get result ''negative_non_returns'' 0 = Some 0)
      else if check_name = ''data_freshness'' then
        (let hours_old = dict_get result ''hours_since_last_load'' 999 in
         py_le (py_num hours_old) thr)
      else if check_name = ''row_count_validation'' then
        (let raw_count = dict_get result ''raw_count'' 0;
             fact_count = dict_get result ''fact_count'' 0 in
         if raw_count = Some 0 then Inr False
         else (let retention_rate = py_div (py_num fact_count) (py_num raw_count)
               in py_ge retention_rate thr))
      else Inr False)"

subsection \<open>\<open>run_quality_check\<close> and \<open>run_all_checks\<close>\<close>

record check_result =
  check_name :: string
  description :: string
  results :: query_row
  passed :: bool
  critical :: bool
  threshold :: "rat option"
  error :: "string option"
  timestamp :: string

text \<open>\<open>str(e)\<close> of the exception caught.\<close>

fun str_of_error :: "error \<Rightarrow> string" where
  "str_of_error (ReadError m) = m"
| "str_of_error (DBError m) = m"
| "str_of_error ValueError = ''ValueError''"
| "str_of_error KeyError = ''KeyError''"
| "str_of_error ZeroDivisionError = ''division by zero''"
| "str_of_error TypeError = ''unsupported operand type(s)''"
| "str_of_error IndexError = ''index out of bounds''"

text \<open>The \<open>except Exception\<close> branch: the dictionary has no \<open>threshold\<close> entry.\<close>

definition failed_result :: "string \<Rightarrow> check \<Rightarrow> error \<Rightarrow> check_result" where
  "failed_result now check e =
     \<lparr>check_name = name check, description = check.description check, results = Map.empty,
      passed = False, critical = check.critical check, threshold = None,
      error = Some (str_of_error e), timestamp = now\<rparr>"

definition run_quality_check :: "database \<Rightarrow> string \<Rightarrow> check \<Rightarrow> check_result" where
  "run_quality_check db now check =
     (case db (name check) of
        Inl e \<Rightarrow> failed_result now check e
      | Inr row \<Rightarrow>
          (let query_result = (case row of None \<Rightarrow> Map.empty | Some r \<Rightarrow> r)
           in case evaluate_check_result check query_result of
                Inl e \<Rightarrow> failed_result now check e
              | Inr p \<Rightarrow>
                  \<lparr>check_name = name check, description = check.description check,
                   results = query_result, passed = p, critical = check.critical check,
                   threshold = Some (check.threshold check), error = None, timestamp = now\<rparr>))"

record summary =
  total_checks :: nat
  passed_checks :: nat
  failed_checks :: nat
  critical_failures :: nat

datatype overall_status = UNKNOWN | CRITICAL_FAILURE | WARNING | PASS

record report =
  execution_time :: string
  check_categories :: "(string \<times> check_result list) list"
  summary :: summary
  overall_status :: overall_status

definition update_summary :: "check_result \<Rightarrow> summary \<Rightarrow> summary" where
  "update_summary r s =
     (let s1 = s\<lparr>total_checks := total_checks s + 1\<rparr>
      in if passed r then s1\<lparr>passed_checks := passed_checks s1 + 1\<rparr>
         else (let s2 = s1\<lparr>failed_checks := failed_checks s1 + 1\<rparr>
               in if check_result.critical r then s2\<lparr>critical_failures := critical_failures s2 + 1\<rparr>
                  else s2))"

text \<open>The inner loop over the checks of a category, then the outer loop over the
  categories, each threading the report.\<close>

fun run_checks :: "database \<Rightarrow> string \<Rightarrow> check list \<Rightarrow> check_result list \<times> summary
    \<Rightarrow> check_result list \<times> summary" where
  "run_checks db now [] acc = acc"
| "run_checks db now (c # cs) (category_results, s) =
     (let r = run_quality_check db now c
      in run_checks db now cs (category_results @ [r], update_summary r s))"

fun run_categories :: "database \<Rightarrow> string \<Rightarrow> (string \<times> check list) list
    \<Rightarrow> (string \<times> check_result list) list \<times> summary
    \<Rightarrow> (string \<times> check_result list) list \<times> summary" where
  "run_categories db now [] acc = acc"
| "run_categories db now ((category, checks) # rest) (cats, s) =
     (case run_checks db now checks ([], s) of
        (category_results, s') \<Rightarrow>
          run_categories db now rest (cats @ [(category, category_results)], s'))"

definition run_all_checks :: "database \<Rightarrow> string \<Rightarrow> report" where
  "run_all_checks db now =
     (case run_categories db now quality_rules
             ([], \<lparr>total_checks = 0, passed_checks = 0, failed_checks = 0, critical_failures = 0\<rparr>) of
        (cats, s) \<Rightarrow>
          \<lparr>execution_time = now, check_categories = cats, summary = s,
           overall_status =
             (if critical_failures s > 0 then CRITICAL_FAILURE
              else if failed_checks s > 0 then WARNING
              else PASS)\<rparr>)"

section \<open>Example data\<close>


definition row0 :: raw_row where
  "row0 = \<lparr>InvoiceNo = Num 536365, StockCode = Str ''85123A'', Description = Some ''A'',
            Quantity = 6, InvoiceDate = Some (0, 30360), UnitPrice = Some (255 / 100),
            CustomerID = Some 17850, Country = Some ''United Kingdom''\<rparr>"

definition frame0 :: raw_frame where
  "frame0 = \<lparr>columns = [''InvoiceNo'', ''StockCode'', ''Description'', ''Quantity'', ''InvoiceDate'',
                 ''UnitPrice'', ''CustomerID'', ''Country''],
             rows = [row0, row0\<lparr>Description := Some ''B''\<rparr>, row0\<lparr>CustomerID := None\<rparr>]\<rparr>"

definition keys0 :: dimension_keys where
  "keys0 = \<lparr>products = [''85123A'' \<mapsto> 1], customers = [17850 \<mapsto> 1],
            countries = [''United Kingdom'' \<mapsto> 1], time = [0 \<mapsto> 1]\<rparr>"

definition staging0 :: staging_row where
  "staging0 = \<lparr>invoice = Some ''536365'', stock_code = Some ''85123A'', description = Some ''A'',
               quantity = 6, invoice_date = Some (0, 30360), price = Some (255 / 100),
               customer_id = Some 17850, country = None\<rparr>"

definition prod_row :: "string \<Rightarrow> string option \<Rightarrow> staging_row" where
  "prod_row code d = staging0\<lparr>staging_row.stock_code := Some code, staging_row.description := d\<rparr>"

definition tied_df :: "staging_row list" where
  "tied_df = [prod_row ''A'' (Some ''b''), prod_row ''A'' (Some ''a'')]"

definition mixed_df :: "staging_row list" where
  "mixed_df = [prod_row ''B'' None, prod_row ''A'' (Some ''x''), prod_row ''A'' (Some ''y''),
               prod_row ''A'' (Some ''y'')]"

definition day :: "date \<Rightarrow> rat \<Rightarrow> daily_row" where
  "day d v = \<lparr>daily_row.date_value = d, daily_sales = v, daily_row.total_transactions = 1, daily_returns = 0,
              return_transactions = 0\<rparr>"

definition sales_df :: "daily_row list" where
  "sales_df = [day 1 10, day 2 12, day 3 11, day 4 13, day 5 9, day 6 100]"

definition decimal_df :: "daily_row list" where
  "decimal_df = [day 1 (3 / 5), day 2 (12 / 5), day 3 (22 / 5), day 4 (24 / 5), day 5 (42 / 5)]"

definition decimal_df2 :: "daily_row list" where
  "decimal_df2 = [day 1 (7 / 10), day 2 1, day 3 (11 / 10), day 4 (6 / 5), day 5 (3 / 2)]"

definition db_940 :: database where
  "db_940 n = (if n = ''row_count_validation''
               then Inr (Some [''raw_count'' \<mapsto> Some 1000, ''fact_count'' \<mapsto> Some 940])
               else Inr None)"

definition db_down :: database where
  "db_down n = (if n = ''duplicate_records'' then Inl (DBError ''connection lost'') else Inr None)"

definition all_ok :: db_faults where
  "all_ok = \<lparr>truncate_ok = True, batch_ok = (\<lambda>k. True)\<rparr>"

definition new_fact :: fact_row where
  "new_fact = fact_of keys0 staging0"

definition old_fact :: fact_row where
  "old_fact = fact_of keys0 (staging0\<lparr>invoice := Some ''536000''\<rparr>)"

section \<open>Properties\<close>

subsection \<open>Deduplication in the staging cleaner\<close>

lemma ddf_keys_fresh: "y \<in> set (drop_dups_from key seen rs) \<Longrightarrow> key y \<notin> set seen"
proof (induction rs arbitrary: seen)
  case Nil then show ?case by simp
next
  case (Cons r rs)
  show ?case
  proof (cases "key r \<in> set seen")
    case True
    with Cons.prems have "y \<in> set (drop_dups_from key seen rs)" by simp
    then show ?thesis by (rule Cons.IH)
  next
    case False
    with Cons.prems consider "y = r" | "y \<in> set (drop_dups_from key (key r # seen) rs)" by auto
    then show ?thesis
    proof cases
      case 1 with False show ?thesis by simp
    next
      case 2
      then have "key y \<notin> set (key r # seen)" by (rule Cons.IH)
      then show ?thesis by simp
    qed
  qed
qed

lemma ddf_distinct: "distinct (map key (drop_dups_from key seen rs))"
  by (induction rs arbitrary: seen) (auto dest: ddf_keys_fresh)

lemma ddf_subseq: "subseq (drop_dups_from key seen rs) rs"
  by (induction rs arbitrary: seen) auto

lemma ddf_keys: "key ` set (drop_dups_from key seen rs) = key ` set rs - set seen"
  by (induction rs arbitrary: seen) auto

lemma ddf_first: "y \<in> set (drop_dups_from key seen rs) \<Longrightarrow> find (\<lambda>r. key r = key y) rs = Some y"
proof (induction rs arbitrary: seen)
  case Nil then show ?case by simp
next
  case (Cons r rs)
  show ?case
  proof (cases "key r \<in> set seen")
    case True
    with Cons.prems have y: "y \<in> set (drop_dups_from key seen rs)" by simp
    then have "key y \<notin> set seen" by (rule ddf_keys_fresh)
    with True have "key r \<noteq> key y" by auto
    with Cons.IH[OF y] show ?thesis by simp
  next
    case False
    with Cons.prems consider "y = r" | "y \<in> set (drop_dups_from key (key r # seen) rs)" by auto
    then show ?thesis
    proof cases
      case 1 then show ?thesis by simp
    next
      case 2
      then have "key y \<notin> set (key r # seen)" by (rule ddf_keys_fresh)
      then have "key r \<noteq> key y" by auto
      with Cons.IH[OF 2] show ?thesis by simp
    qed
  qed
qed

lemma ddf_fixed: "distinct (map key rs) \<Longrightarrow> key ` set rs \<inter> set seen = {} \<Longrightarrow> drop_dups_from key seen rs = rs"
  by (induction rs arbitrary: seen) auto

lemma ddf_map: "(\<And>r. key' (f r) = key r) \<Longrightarrow> drop_dups_from key' seen (map f rs) = map f (drop_dups_from key seen rs)"
  by (induction rs arbitrary: seen) auto

lemma truncate_flag_row: "raw_row.truncate (flag_row r) = r"
  by (simp add: flag_row_def raw_row.defs)

lemma truncate_finish_row: "raw_row.truncate (finish_row now c) = raw_row.truncate c"
  by (simp add: finish_row_def raw_row.defs)

lemma DEDUP_KEYS_truncate: "DEDUP_KEYS (raw_row.truncate c) = DEDUP_KEYS c"
  by (simp add: DEDUP_KEYS_def raw_row.defs)

lemma DEDUP_KEYS_flag_row: "DEDUP_KEYS (flag_row r) = DEDUP_KEYS r"
  by (simp add: DEDUP_KEYS_def flag_row_def raw_row.defs)

lemma DEDUP_KEYS_finish_row: "DEDUP_KEYS (finish_row now c) = DEDUP_KEYS c"
  by (simp add: DEDUP_KEYS_def finish_row_def)

lemma clean_data_rows:
  assumes "clean_data now df = Inr (out, st)"
  shows "map raw_row.truncate out = drop_duplicates DEDUP_KEYS (filter has_critical_fields (rows df))"
    and "duplicates_removed st = length (filter has_critical_fields (rows df)) - length out"
proof -
  let ?w = "filter has_critical_fields (rows df)"
  from assms have out: "out = map (finish_row now) (drop_duplicates DEDUP_KEYS (map flag_row ?w))"
    and st: "duplicates_removed st = length (map flag_row ?w) - length (drop_duplicates DEDUP_KEYS (map flag_row ?w))"
    by (auto simp: clean_data_def Let_def split: if_splits)
  have m: "drop_duplicates DEDUP_KEYS (map flag_row ?w) = map flag_row (drop_duplicates DEDUP_KEYS ?w)"
    unfolding drop_duplicates_def by (rule ddf_map) (rule DEDUP_KEYS_flag_row)
  show "map raw_row.truncate out = drop_duplicates DEDUP_KEYS ?w"
    by (simp add: out m truncate_finish_row truncate_flag_row o_def)
  show "duplicates_removed st = length ?w - length out"
    by (simp add: st out)
qed



lemma ddf_set: "set (drop_dups_from key seen rs) \<subseteq> set rs"
  by (induction rs arbitrary: seen) auto

text \<open>
  Claim C3. For every input frame that \<open>_clean_data\<close> accepts, the rows it returns are, in
  input order, the first row of each (invoice, stock code, invoice date) triple among the
  rows that passed the null filter: they form a subsequence of the input, their key
  triples are pairwise distinct and cover every key of the filtered input, and each
  returned row is the first filtered row carrying its key. The deduplication is
  idempotent: applied to the cleaner's output it returns the output unchanged, and a
  second run of the cleaner on its own output reports \<open>duplicates_removed = 0\<close> and keeps
  every row.
\<close>

theorem clean_data_dedup_first_idempotent:
  assumes "clean_data now df = Inr (out, st)"
  shows "subseq (map raw_row.truncate out) (rows df)
       \<and> distinct (map DEDUP_KEYS out)
       \<and> DEDUP_KEYS ` set out = DEDUP_KEYS ` {r \<in> set (rows df). has_critical_fields r}
       \<and> (\<forall>y \<in> set out. find (\<lambda>r. DEDUP_KEYS r = DEDUP_KEYS y) (filter has_critical_fields (rows df))
                              = Some (raw_row.truncate y))
       \<and> duplicates_removed st = length (filter has_critical_fields (rows df)) - length out
       \<and> drop_duplicates DEDUP_KEYS out = out
       \<and> (\<exists>out' st'. clean_data now' (clean_frame df out) = Inr (out', st')
              \<and> duplicates_removed st' = 0 \<and> length out' = length out)"
proof -
  let ?w = "filter has_critical_fields (rows df)"
  let ?t = "map raw_row.truncate out"
  have t: "?t = drop_duplicates DEDUP_KEYS ?w"
    and dr: "duplicates_removed st = length ?w - length out"
    using clean_data_rows[OF assms] by simp_all
  have keys_t: "map DEDUP_KEYS ?t = map DEDUP_KEYS out"
    by (simp add: DEDUP_KEYS_truncate o_def)
  have "subseq ?t ?w"
    unfolding t drop_duplicates_def by (rule ddf_subseq)
  moreover have "subseq ?w (rows df)" by simp
  ultimately have c1: "subseq ?t (rows df)" by (rule subseq_order.order_trans)
  have "distinct (map DEDUP_KEYS ?t)"
    unfolding t drop_duplicates_def by (rule ddf_distinct)
  then have c2: "distinct (map DEDUP_KEYS out)" by (simp only: keys_t)
  have "DEDUP_KEYS ` set ?t = DEDUP_KEYS ` set ?w"
    unfolding t drop_duplicates_def by (simp add: ddf_keys)
  moreover have "DEDUP_KEYS ` set ?t = DEDUP_KEYS ` set out"
    by (simp add: image_image DEDUP_KEYS_truncate)
  ultimately have c3: "DEDUP_KEYS ` set out = DEDUP_KEYS ` {r \<in> set (rows df). has_critical_fields r}"
    by simp
  have c4: "\<forall>y \<in> set out. find (\<lambda>r. DEDUP_KEYS r = DEDUP_KEYS y) ?w = Some (raw_row.truncate y)"
  proof
    fix y assume "y \<in> set out"
    then have "raw_row.truncate y \<in> set (drop_dups_from DEDUP_KEYS [] ?w)"
      using arg_cong[OF t, of set] unfolding drop_duplicates_def by auto
    from ddf_first[OF this] show "find (\<lambda>r. DEDUP_KEYS r = DEDUP_KEYS y) ?w = Some (raw_row.truncate y)"
      by (simp add: DEDUP_KEYS_truncate)
  qed
  have c6: "drop_duplicates DEDUP_KEYS out = out"
    unfolding drop_duplicates_def using c2 by (intro ddf_fixed) simp_all
  have crit: "filter has_critical_fields ?t = ?t"
  proof -
    have "set ?t \<subseteq> set ?w" unfolding t drop_duplicates_def by (rule ddf_set)
    then show ?thesis by (auto simp: filter_id_conv)
  qed
  have cols: "\<not> (\<exists>c \<in> set required_cols. c \<notin> set (columns df))"
    "''UnitPrice'' \<in> set (columns df)" "''Quantity'' \<in> set (columns df)"
    using assms by (auto simp: clean_data_def Let_def split: if_splits)
  have d2: "distinct (map DEDUP_KEYS (map flag_row ?t))"
  proof -
    have "map DEDUP_KEYS (map flag_row ?t) = map DEDUP_KEYS out"
      by (simp add: o_def DEDUP_KEYS_flag_row DEDUP_KEYS_truncate)
    with c2 show ?thesis by (simp only:)
  qed
  have fix2: "drop_duplicates DEDUP_KEYS (map flag_row ?t) = map flag_row ?t"
    unfolding drop_duplicates_def using d2 by (intro ddf_fixed) simp_all
  have c7: "\<exists>out' st'. clean_data now' (clean_frame df out) = Inr (out', st')
              \<and> duplicates_removed st' = 0 \<and> length out' = length out"
    using cols by (simp add: clean_data_def clean_frame_def Let_def crit fix2 del: map_map)
  from c1 c2 c3 c4 dr c6 c7 show ?thesis by blast
qed


lemma clean_data_frame0:
  "clean_data (1, 0) frame0 =
     Inr ([finish_row (1, 0) (flag_row row0)],
          \<lparr>null_drops = 1, invalid_price_count = 0, high_quantity_count = 0, return_count = 0,
           duplicates_removed = 1\<rparr>)"
  by (simp add: clean_data_def frame0_def row0_def required_cols_def Let_def has_critical_fields_def
      drop_duplicates_def DEDUP_KEYS_def flag_row_def raw_row.defs invalid_price_mask_def
      high_qty_mask_def return_mask_def startswith_def str_of_int_def digit_char_def digits.simps)

theorem clean_data_dedup_first_idempotent_witness:
  "clean_data (1, 0) frame0 =
     Inr ([finish_row (1, 0) (flag_row row0)],
          \<lparr>null_drops = 1, invalid_price_count = 0, high_quantity_count = 0, return_count = 0,
           duplicates_removed = 1\<rparr>)
   \<and> length (rows frame0) = 3
   \<and> drop_duplicates DEDUP_KEYS [finish_row (1, 0) (flag_row row0)] = [finish_row (1, 0) (flag_row row0)]
   \<and> (\<exists>out' st'. clean_data (2, 0) (clean_frame frame0 [finish_row (1, 0) (flag_row row0)]) = Inr (out', st')
          \<and> duplicates_removed st' = 0 \<and> length out' = 1)"
  using clean_data_dedup_first_idempotent [OF clean_data_frame0, of "(2, 0)"] clean_data_frame0
  by (simp add: frame0_def)

subsection \<open>Return flag in the cleaner and in the fact builder\<close>


lemma digit_char_not_C: "d < 10 \<Longrightarrow> digit_char d \<noteq> CHR ''C''"
proof -
  assume "d < 10"
  then have "d = 0 \<or> d = 1 \<or> d = 2 \<or> d = 3 \<or> d = 4 \<or> d = 5 \<or> d = 6 \<or> d = 7 \<or> d = 8 \<or> d = 9"
    by presburger
  then show ?thesis
    by (elim disjE) (simp_all add: digit_char_def)
qed

lemma digits_head: "digits n \<noteq> [] \<and> hd (digits n) \<noteq> CHR ''C''"
proof (induction n rule: digits.induct)
  case (1 n)
  show ?case
  proof (cases "n < 10")
    case True
    then show ?thesis by (simp add: digit_char_not_C digits.simps[of n])
  next
    case False
    with "1.IH" have "digits (n div 10) \<noteq> [] \<and> hd (digits (n div 10)) \<noteq> CHR ''C''" by simp
    moreover from False have "digits n = digits (n div 10) @ [digit_char (n mod 10)]" by (simp add: digits.simps[of n])
    ultimately show ?thesis by simp
  qed
qed

lemma str_of_int_not_C: "\<not> startswith (str_of_int i) ''C''"
proof -
  have "take 1 (digits n) \<noteq> ''C''" for n
    using digits_head[of n] by (cases "digits n") auto
  then show ?thesis
    by (simp add: startswith_def str_of_int_def)
qed

lemma startswith_db_text: "startswith (astype_str_obj (db_text c)) ''C'' = startswith (astype_str c) ''C''"
proof (cases c)
  case (Str s) then show ?thesis by simp
next
  case (Num i) then show ?thesis by simp
next
  case NaN then show ?thesis by (simp add: startswith_def)
qed

text \<open>
  Claim C2. The \<open>is_return\<close> flag of the fact builder equals the flag of the staging cleaner
  on the same row: for every raw row, the flag \<open>_clean_data\<close> derives is the flag
  \<open>transform_fact_sales\<close> derives from the row as \<open>load_to_staging\<close> stores it, and each of
  the two is true exactly when the invoice identifier, converted to a string, starts with
  the letter C, or the quantity is negative.
\<close>

theorem is_return_consistent:
  "fact_row.is_return (fact_of keys (staging_of (finish_row now (flag_row r))))
     = clean_row.is_return (finish_row now (flag_row r))
   \<and> clean_row.is_return (finish_row now (flag_row r))
     = (startswith (astype_str (InvoiceNo r)) ''C'' \<or> Quantity r < 0)
   \<and> fact_row.is_return (fact_of keys s)
     = (startswith (astype_str_obj (invoice s)) ''C'' \<or> staging_row.quantity s < 0)"
  by (simp add: fact_of_def fact_is_return_def staging_of_def finish_row_def flag_row_def
      return_mask_def raw_row.defs startswith_db_text)

subsection \<open>Rows with unresolved dimension keys\<close>

lemma transform_fact_sales_has_keys:
  "f \<in> set (transform_fact_sales df keys) \<Longrightarrow> has_keys f"
proof -
  assume "f \<in> set (transform_fact_sales df keys)"
  then have "f \<in> set (filter has_keys (map (fact_of keys) df))"
    using ddf_set[of fact_dedup_key "[]" "filter has_keys (map (fact_of keys) df)"]
    by (auto simp: transform_fact_sales_def drop_duplicates_def Let_def)
  then show ?thesis by simp
qed

text \<open>
  Claim C1. The claim asks that a staging row with any of the four key lookups unresolved
  is dropped. The code drops on the product, customer and time keys only: a staging row
  with a missing country and the three other keys resolved is retained, with a null
  \<open>country_key\<close>.
\<close>

theorem transform_fact_sales_keeps_unresolved_country:
  "transform_fact_sales [staging0] keys0 =
     [\<lparr>invoice_no = Some ''536365'', product_key = Some 1, customer_key = Some 1,
       time_key = Some 1, country_key = None, quantity = 6, unit_price = Some (255 / 100),
       total_amount = Some (1530 / 100), is_return = False\<rparr>]"
  by (simp add: transform_fact_sales_def staging0_def keys0_def fact_of_def series_map_def
      fact_is_return_def has_keys_def drop_duplicates_def startswith_def)

subsection \<open>Descriptions in the product dimension\<close>

lemma fold_max_ge: "(a::nat) \<le> fold max xs a"
  by (induction xs arbitrary: a) (auto intro: order_trans[OF max.cobounded2])

lemma fold_max_upper: "x \<in> set xs \<Longrightarrow> (x::nat) \<le> fold max xs a"
proof (induction xs arbitrary: a)
  case Nil then show ?case by simp
next
  case (Cons y ys)
  show ?case
  proof (cases "x = y")
    case True
    have "y \<le> max y a" by simp
    also have "\<dots> \<le> fold max ys (max y a)" by (rule fold_max_ge)
    finally show ?thesis using True by simp
  next
    case False
    with Cons.prems have "x \<in> set ys" by simp
    then show ?thesis by (simp add: Cons.IH)
  qed
qed

lemma fold_max_mem: "fold max xs (a::nat) \<in> set (a # xs)"
proof (induction xs arbitrary: a)
  case Nil then show ?case by simp
next
  case (Cons y ys)
  have "fold max ys (max y a) \<in> set (max y a # ys)" by (rule Cons.IH)
  moreover have "max y a = y \<or> max y a = a" by (simp add: max_def)
  ultimately have "fold max ys (max y a) \<in> set (a # y # ys)" by auto
  then show ?case by simp
qed

lemma max_count_upper: "v \<in> set vs \<Longrightarrow> count_list vs v \<le> max_count vs"
  unfolding max_count_def by (rule fold_max_upper) simp

lemma max_count_attained: "vs \<noteq> [] \<Longrightarrow> \<exists>v \<in> set vs. count_list vs v = max_count vs"
proof -
  assume ne: "vs \<noteq> []"
  then obtain w where w: "w \<in> set vs" by (cases vs) auto
  then have pos: "0 < count_list vs w" using count_list_0_iff[of vs w] by simp
  have "max_count vs \<in> set (0 # map (count_list vs) vs)"
    unfolding max_count_def by (rule fold_max_mem)
  moreover have "max_count vs \<noteq> 0" using max_count_upper[OF w] pos by simp
  ultimately show ?thesis by auto
qed

lemma set_mode: "set (mode x) = {v \<in> set (dropna x). count_list (dropna x) v = max_count (dropna x)}"
  by (auto simp: mode_def Let_def)

lemma sorted_mode: "sorted (mode x)"
  by (simp add: mode_def Let_def)

lemma mode_empty_iff: "mode x = [] \<longleftrightarrow> dropna x = []"
proof
  assume "mode x = []"
  then have "set (mode x) = {}" by simp
  then show "dropna x = []" using max_count_attained[of "dropna x"] by (auto simp: set_mode)
next
  assume "dropna x = []" then show "mode x = []" by (simp add: mode_def)
qed

lemma dropna_empty_hd: "dropna x = [] \<Longrightarrow> x = a # y \<Longrightarrow> a = None"
  by (cases a) auto

lemma agg_description_cases:
  assumes "x \<noteq> []"
  shows "\<exists>d. agg_description x = Inr d \<and>
     (case d of None \<Rightarrow> dropna x = []
      | Some m \<Rightarrow> m \<in> set (dropna x)
          \<and> (\<forall>d' \<in> set (dropna x). count_list (dropna x) d' \<le> count_list (dropna x) m)
          \<and> (\<forall>d' \<in> set (dropna x). count_list (dropna x) d' = count_list (dropna x) m \<longrightarrow> m \<le> d'))"
proof (cases "mode x")
  case Nil
  then have e: "dropna x = []" by (simp add: mode_empty_iff)
  from assms obtain a y where x: "x = a # y" by (cases x) auto
  with e have "a = None" by (cases a) auto
  with Nil x e show ?thesis by (simp add: agg_description_def)
next
  case (Cons m ms)
  then have m: "m \<in> set (mode x)" by simp
  then have mem: "m \<in> set (dropna x)" and cnt: "count_list (dropna x) m = max_count (dropna x)"
    by (simp_all add: set_mode)
  have le: "m \<le> d'" if "d' \<in> set (mode x)" for d'
    using sorted_mode[of x] that Cons by auto
  have "\<forall>d' \<in> set (dropna x). count_list (dropna x) d' \<le> count_list (dropna x) m"
    by (simp add: cnt max_count_upper)
  moreover have "\<forall>d' \<in> set (dropna x). count_list (dropna x) d' = count_list (dropna x) m \<longrightarrow> m \<le> d'"
    using le by (simp add: set_mode cnt)
  ultimately show ?thesis using Cons mem by (simp add: agg_description_def)
qed

lemma dropna_mem: "v \<in> set (dropna xs) \<longleftrightarrow> Some v \<in> set xs"
  by (induction xs) (auto split: option.splits)

lemma group_of_nonempty: "k \<in> set (group_keys df) \<Longrightarrow> group_of df k \<noteq> []"
proof -
  assume "k \<in> set (group_keys df)"
  then have "Some k \<in> staging_row.stock_code ` set df"
    by (simp add: group_keys_def dropna_mem)
  then obtain r where "r \<in> set df" "staging_row.stock_code r = Some k" by auto
  then have "r \<in> set (filter (\<lambda>r. staging_row.stock_code r = Some k) df)" by simp
  then show ?thesis unfolding group_of_def by (metis empty_iff list.set(1) map_is_Nil_conv)
qed

lemma sequence_err_all_Inr:
  "\<forall>k \<in> set ks. \<exists>v. f k = Inr v \<Longrightarrow>
   \<exists>vs. sequence_err (map f ks) = Inr vs \<and> length vs = length ks \<and> (\<forall>i < length ks. f (ks ! i) = Inr (vs ! i))"
proof (induction ks)
  case Nil then show ?case by simp
next
  case (Cons k ks)
  then obtain v where v: "f k = Inr v" by auto
  from Cons obtain vs where vs: "sequence_err (map f ks) = Inr vs" "length vs = length ks"
    "\<forall>i < length ks. f (ks ! i) = Inr (vs ! i)" by auto
  have "\<forall>i < length (k # ks). f ((k # ks) ! i) = Inr ((v # vs) ! i)"
    using v vs(3) by (auto simp: nth_Cons split: nat.splits)
  with v vs show ?case by auto
qed

lemma product_of_group_ok:
  assumes "k \<in> set (group_keys df)"
  shows "\<exists>p. product_of_group df k = Inr p \<and> product_row.stock_code p = k \<and>
     (case product_row.description p of
        None \<Rightarrow> dropna (group_of df (product_row.stock_code p)) = []
      | Some m \<Rightarrow> m \<in> set (dropna (group_of df (product_row.stock_code p)))
          \<and> (\<forall>d' \<in> set (dropna (group_of df (product_row.stock_code p))).
                count_list (dropna (group_of df (product_row.stock_code p))) d'
                  \<le> count_list (dropna (group_of df (product_row.stock_code p))) m)
          \<and> (\<forall>d' \<in> set (dropna (group_of df (product_row.stock_code p))).
                count_list (dropna (group_of df (product_row.stock_code p))) d'
                  = count_list (dropna (group_of df (product_row.stock_code p))) m
                \<longrightarrow> m \<le> d'))"
proof -
  from agg_description_cases[OF group_of_nonempty[OF assms]]
  obtain d where d: "agg_description (group_of df k) = Inr d"
    and c: "(case d of None \<Rightarrow> dropna (group_of df k) = []
      | Some m \<Rightarrow> m \<in> set (dropna (group_of df k))
          \<and> (\<forall>d' \<in> set (dropna (group_of df k)). count_list (dropna (group_of df k)) d' \<le> count_list (dropna (group_of df k)) m)
          \<and> (\<forall>d' \<in> set (dropna (group_of df k)). count_list (dropna (group_of df k)) d' = count_list (dropna (group_of df k)) m \<longrightarrow> m \<le> d'))"
    by blast
  have "product_of_group df k = Inr \<lparr>stock_code = k, description = d\<rparr>"
    by (simp add: product_of_group_def d)
  moreover have "(case product_row.description \<lparr>stock_code = k, description = d\<rparr> of
        None \<Rightarrow> dropna (group_of df (product_row.stock_code \<lparr>stock_code = k, description = d\<rparr>)) = []
      | Some m \<Rightarrow> m \<in> set (dropna (group_of df (product_row.stock_code \<lparr>stock_code = k, description = d\<rparr>)))
          \<and> (\<forall>d' \<in> set (dropna (group_of df (product_row.stock_code \<lparr>stock_code = k, description = d\<rparr>))).
                count_list (dropna (group_of df (product_row.stock_code \<lparr>stock_code = k, description = d\<rparr>))) d'
                  \<le> count_list (dropna (group_of df (product_row.stock_code \<lparr>stock_code = k, description = d\<rparr>))) m)
          \<and> (\<forall>d' \<in> set (dropna (group_of df (product_row.stock_code \<lparr>stock_code = k, description = d\<rparr>))).
                count_list (dropna (group_of df (product_row.stock_code \<lparr>stock_code = k, description = d\<rparr>))) d'
                  = count_list (dropna (group_of df (product_row.stock_code \<lparr>stock_code = k, description = d\<rparr>))) m
                \<longrightarrow> m \<le> d'))"
    using c by (simp only: product_row.simps)
  ultimately show ?thesis by (intro exI[of _ "\<lparr>stock_code = k, description = d\<rparr>"]) simp
qed

lemmas product_eval_defs =
  transform_product_dimension_def group_keys_def product_of_group_def agg_description_def
  mode_def max_count_def group_of_def prod_row_def staging0_def Let_def
  less_char_def less_eq_char_def first_seen_mode_def

lemma tied_eval:
  "transform_product_dimension tied_df = Inr [\<lparr>stock_code = ''A'', description = Some ''a''\<rparr>]"
  by (simp add: tied_df_def product_eval_defs)

lemma tied_first: "first_seen_mode (group_of tied_df ''A'') = Some ''b''"
  by (simp add: tied_df_def product_eval_defs)

lemma mixed_eval:
  "transform_product_dimension mixed_df =
     Inr [\<lparr>stock_code = ''A'', description = Some ''y''\<rparr>, \<lparr>stock_code = ''B'', description = None\<rparr>]"
  by (simp add: mixed_df_def product_eval_defs)

text \<open>
  Claim C4, as amended. For every staging frame \<open>transform_product_dimension\<close> returns one
  row per distinct non-missing stock code, in ascending order of the code. The description
  of a code is a description most frequent among the non-missing descriptions of the rows
  with that code; when several are tied for most frequent, it is the smallest of them in
  string order (\<open>Series.mode()\<close> returns its values sorted), not the one seen first. When
  every description of the code is missing, the recorded description is missing.
\<close>

theorem product_description_smallest_mode:
  "\<exists>prods. transform_product_dimension df = Inr prods
     \<and> map product_row.stock_code prods = sort (remdups (dropna (map staging_row.stock_code df)))
     \<and> (\<forall>p \<in> set prods.
          (case product_row.description p of
             None \<Rightarrow> dropna (group_of df (product_row.stock_code p)) = []
           | Some d \<Rightarrow>
               d \<in> set (dropna (group_of df (product_row.stock_code p)))
               \<and> (\<forall>d' \<in> set (dropna (group_of df (product_row.stock_code p))).
                     count_list (dropna (group_of df (product_row.stock_code p))) d'
                       \<le> count_list (dropna (group_of df (product_row.stock_code p))) d)
               \<and> (\<forall>d' \<in> set (dropna (group_of df (product_row.stock_code p))).
                     count_list (dropna (group_of df (product_row.stock_code p))) d'
                       = count_list (dropna (group_of df (product_row.stock_code p))) d
                     \<longrightarrow> d \<le> d')))"
proof -
  let ?ks = "group_keys df"
  let ?good = "\<lambda>p. (case product_row.description p of
             None \<Rightarrow> dropna (group_of df (product_row.stock_code p)) = []
           | Some d \<Rightarrow>
               d \<in> set (dropna (group_of df (product_row.stock_code p)))
               \<and> (\<forall>d' \<in> set (dropna (group_of df (product_row.stock_code p))).
                     count_list (dropna (group_of df (product_row.stock_code p))) d'
                       \<le> count_list (dropna (group_of df (product_row.stock_code p))) d)
               \<and> (\<forall>d' \<in> set (dropna (group_of df (product_row.stock_code p))).
                     count_list (dropna (group_of df (product_row.stock_code p))) d'
                       = count_list (dropna (group_of df (product_row.stock_code p))) d
                     \<longrightarrow> d \<le> d'))"
  have ok: "\<forall>k \<in> set ?ks. \<exists>p. product_of_group df k = Inr p"
    using product_of_group_ok by blast
  from sequence_err_all_Inr[OF ok]
  obtain prods where run: "sequence_err (map (product_of_group df) ?ks) = Inr prods"
    and len: "length prods = length ?ks"
    and each: "\<forall>i < length ?ks. product_of_group df (?ks ! i) = Inr (prods ! i)"
    by blast
  have pt: "product_row.stock_code (prods ! i) = ?ks ! i \<and> ?good (prods ! i)" if "i < length ?ks" for i
  proof -
    from that have "?ks ! i \<in> set ?ks" by simp
    from product_of_group_ok[OF this] obtain p where
      p: "product_of_group df (?ks ! i) = Inr p" "product_row.stock_code p = ?ks ! i"
      and g: "?good p"
      by blast
    from each that p(1) have eq: "prods ! i = p" by simp
    from g p(2) show ?thesis unfolding eq by blast
  qed
  have codes: "map product_row.stock_code prods = ?ks"
    by (rule nth_equalityI) (simp_all add: len pt)
  have all: "\<forall>p \<in> set prods. ?good p"
  proof
    fix p assume "p \<in> set prods"
    then obtain i where i: "i < length prods" and pi: "prods ! i = p"
      by (auto simp: in_set_conv_nth)
    from i len have "i < length ?ks" by simp
    from pt[OF this] have "?good (prods ! i)" by (rule conjunct2)
    then show "?good p" unfolding pi .
  qed
  from run codes all show ?thesis
    unfolding transform_product_dimension_def group_keys_def by blast
qed

theorem product_description_smallest_mode_witness:
  "transform_product_dimension mixed_df =
     Inr [\<lparr>stock_code = ''A'', description = Some ''y''\<rparr>, \<lparr>stock_code = ''B'', description = None\<rparr>]
   \<and> ''y'' \<in> set (dropna (group_of mixed_df ''A''))
   \<and> ''x'' \<in> set (dropna (group_of mixed_df ''A''))
   \<and> count_list (dropna (group_of mixed_df ''A'')) ''x''
       \<le> count_list (dropna (group_of mixed_df ''A'')) ''y''
   \<and> dropna (group_of mixed_df ''B'') = []"
proof -
  let ?L = "[\<lparr>stock_code = ''A'', description = Some ''y''\<rparr>, \<lparr>stock_code = ''B'', description = None\<rparr>]"
  from product_description_smallest_mode[of mixed_df] obtain prods where
    a: "transform_product_dimension mixed_df = Inr prods"
    and c: "\<forall>p \<in> set prods.
          (case product_row.description p of
             None \<Rightarrow> dropna (group_of mixed_df (product_row.stock_code p)) = []
           | Some d \<Rightarrow>
               d \<in> set (dropna (group_of mixed_df (product_row.stock_code p)))
               \<and> (\<forall>d' \<in> set (dropna (group_of mixed_df (product_row.stock_code p))).
                     count_list (dropna (group_of mixed_df (product_row.stock_code p))) d'
                       \<le> count_list (dropna (group_of mixed_df (product_row.stock_code p))) d)
               \<and> (\<forall>d' \<in> set (dropna (group_of mixed_df (product_row.stock_code p))).
                     count_list (dropna (group_of mixed_df (product_row.stock_code p))) d'
                       = count_list (dropna (group_of mixed_df (product_row.stock_code p))) d
                     \<longrightarrow> d \<le> d'))"
    by blast
  from a have e: "prods = ?L" by (simp add: mixed_eval)
  have pA: "\<lparr>stock_code = ''A'', description = Some ''y''\<rparr> \<in> set prods" by (simp add: e)
  have pB: "\<lparr>stock_code = ''B'', description = None\<rparr> \<in> set prods" by (simp add: e)
  from bspec[OF c pA] have y: "''y'' \<in> set (dropna (group_of mixed_df ''A''))"
    and most: "\<forall>d' \<in> set (dropna (group_of mixed_df ''A'')).
                 count_list (dropna (group_of mixed_df ''A'')) d'
                   \<le> count_list (dropna (group_of mixed_df ''A'')) ''y''"
    by simp_all
  have x: "''x'' \<in> set (dropna (group_of mixed_df ''A''))"
    by (simp add: group_of_def mixed_df_def prod_row_def staging0_def)
  from most x have le: "count_list (dropna (group_of mixed_df ''A'')) ''x''
       \<le> count_list (dropna (group_of mixed_df ''A'')) ''y''"
    by (rule bspec)
  from bspec[OF c pB] have none: "dropna (group_of mixed_df ''B'') = []" by simp
  from a y x le none show ?thesis unfolding e by (intro conjI)
qed

text \<open>
  Claim C4 as stated fails on a tie: with the descriptions \<open>b\<close> then \<open>a\<close> for one stock
  code, each occurring once, the first-seen tie-break of the claim gives \<open>b\<close>, and the
  product dimension records \<open>a\<close>.
\<close>

theorem product_description_first_seen_counterexample:
  "transform_product_dimension tied_df = Inr [\<lparr>stock_code = ''A'', description = Some ''a''\<rparr>]
   \<and> first_seen_mode (group_of tied_df ''A'') = Some ''b''"
  using tied_eval tied_first by (rule conjI)

subsection \<open>Arithmetic helpers\<close>

lemma floor_rat_numeral: "\<lfloor>(numeral a / numeral b :: rat)\<rfloor> = numeral a div numeral b"
  using floor_divide_of_int_eq[of "numeral a" "numeral b", where ?'a = rat] by simp

lemmas f64_eval = f64_def scale_up.simps scale_down.simps two_p52_def round_half_even_def
  pow2_def Let_def floor_rat_numeral fadd_def fsub_def fmul_def

subsection \<open>Daily sales outliers\<close>

lemma f64_small_ints:
  "f64 9 = 9" "f64 10 = 10" "f64 11 = 11" "f64 12 = 12" "f64 13 = 13" "f64 100 = 100" "f64 0 = 0"
  "f64 1 = 1" "f64 (1 / 4) = 1 / 4" "f64 (3 / 4) = 3 / 4" "f64 (5 / 4) = 5 / 4" "f64 (15 / 4) = 15 / 4"
  "f64 (41 / 4) = 41 / 4" "f64 (51 / 4) = 51 / 4" "f64 (5 / 2) = 5 / 2" "f64 (13 / 2) = 13 / 2"
  "f64 (33 / 2) = 33 / 2"
  by (simp_all add: f64_eval)

lemma sales_q25: "quantile [10, 12, 11, 13, 9, 100] (1 / 4) = Some (41 / 4)"
  by (simp add: quantile_def lerp_def fadd_def fsub_def fmul_def Let_def f64_small_ints floor_rat_numeral)

lemma sales_q75: "quantile [10, 12, 11, 13, 9, 100] (3 / 4) = Some (51 / 4)"
  by (simp add: quantile_def lerp_def fadd_def fsub_def fmul_def Let_def f64_small_ints floor_rat_numeral)

lemma sales_lower_bound: "lower_bound [10, 12, 11, 13, 9, 100] = Some (13 / 2)"
  by (simp add: lower_bound_def sales_q25 sales_q75 fadd_def fsub_def fmul_def f64_small_ints)

lemma sales_upper_bound: "upper_bound [10, 12, 11, 13, 9, 100] = Some (33 / 2)"
  by (simp add: upper_bound_def sales_q25 sales_q75 fadd_def fsub_def fmul_def f64_small_ints)

lemma sales_df_tags:
  "map scored_day.outlier_type (check_daily_sales_range sales_df)
     = [Normal, Normal, Normal, Normal, Normal, High]
   \<and> map scored_day.quality_score (check_daily_sales_range sales_df)
     = [100, 100, 100, 100, 100, 85]"
proof -
  have df: "read_daily_sales sales_df = sales_df"
    by (simp add: read_daily_sales_def sales_df_def day_def f64_small_ints)
  have series: "map daily_sales sales_df = [10, 12, 11, 13, 9, 100]"
    by (simp add: sales_df_def day_def)
  show ?thesis
    by (simp add: check_daily_sales_range_def df series sales_lower_bound sales_upper_bound Let_def)
       (simp add: sales_df_def day_def score_day_def lt_nan_def gt_nan_def daily_row.defs Let_def)
qed

lemma quantile_Some: "xs \<noteq> [] \<Longrightarrow> \<exists>v. quantile xs q = Some v"
  by (simp add: quantile_def Let_def)

lemma bounds_of_quantiles:
  "quantile xs (1 / 4) = Some q25 \<Longrightarrow> quantile xs (3 / 4) = Some q75 \<Longrightarrow>
   lower_bound xs = Some (fsub q25 (fmul (3 / 2) (fsub q75 q25)))
   \<and> upper_bound xs = Some (fadd q75 (fmul (3 / 2) (fsub q75 q25)))"
  by (simp add: lower_bound_def upper_bound_def)

lemma score_day_Some:
  "scored_day.outlier_type (score_day (Some lo) (Some hi) r) =
     (if daily_sales r < lo then Low else if hi < daily_sales r then High else Normal)
   \<and> scored_day.quality_score (score_day (Some lo) (Some hi) r) =
     (if daily_sales r < lo \<or> hi < daily_sales r then 85 else 100)
   \<and> is_outlier (score_day (Some lo) (Some hi) r) = (daily_sales r < lo \<or> hi < daily_sales r)
   \<and> daily_sales (score_day (Some lo) (Some hi) r) = daily_sales r"
  by (simp add: score_day_def lt_nan_def gt_nan_def daily_row.defs Let_def)

lemma read_daily_sales_nth:
  "length (read_daily_sales rs) = length rs"
  "i < length rs \<Longrightarrow> daily_sales (read_daily_sales rs ! i) = f64 (daily_sales (rs ! i))"
  "map daily_sales (read_daily_sales rs) = map (\<lambda>r. f64 (daily_sales r)) rs"
  by (simp_all add: read_daily_sales_def)

text \<open>
  Claim C5. For a non-empty daily net-sales series, \<open>check_daily_sales_range\<close> takes the
  quartiles \<open>Q1\<close>, \<open>Q3\<close> of the whole series as read into \<open>float64\<close>, the spread
  \<open>IQR = Q3 - Q1\<close> and the bounds \<open>Q1 - 1.5 * IQR\<close> and \<open>Q3 + 1.5 * IQR\<close>, every
  operation rounded to a double as the code computes it; it returns one row per day, in
  order, and tags a day \<open>Low\<close> when its amount is below the lower bound, \<open>High\<close> when it is
  above the upper bound and \<open>Normal\<close> otherwise, with the score 85 for the outliers and
  100 for the others. The amounts are below \<open>2 ^ 1000\<close> in magnitude, so that no operation
  overflows. For the series \<open>[10, 12, 11, 13, 9, 100]\<close> the day of 100 is \<open>High\<close> and the
  other five are \<open>Normal\<close>.
\<close>

theorem daily_sales_iqr_outliers:
  assumes "query_rows \<noteq> []"
    and "\<forall>r \<in> set query_rows. \<bar>daily_sales r\<bar> \<le> 2 ^ 1000"
  shows "(\<exists>q25 q75 iqr lo hi.
            quantile (map (\<lambda>r. f64 (daily_sales r)) query_rows) (1 / 4) = Some q25
          \<and> quantile (map (\<lambda>r. f64 (daily_sales r)) query_rows) (3 / 4) = Some q75
          \<and> iqr = fsub q75 q25
          \<and> lo = fsub q25 (fmul (3 / 2) iqr)
          \<and> hi = fadd q75 (fmul (3 / 2) iqr)
          \<and> length (check_daily_sales_range query_rows) = length query_rows
          \<and> (\<forall>i < length query_rows.
                daily_sales (check_daily_sales_range query_rows ! i) = f64 (daily_sales (query_rows ! i))
              \<and> scored_day.outlier_type (check_daily_sales_range query_rows ! i) =
                  (if f64 (daily_sales (query_rows ! i)) < lo then Low
                   else if hi < f64 (daily_sales (query_rows ! i)) then High else Normal)
              \<and> is_outlier (check_daily_sales_range query_rows ! i) =
                  (f64 (daily_sales (query_rows ! i)) < lo \<or> hi < f64 (daily_sales (query_rows ! i)))
              \<and> scored_day.quality_score (check_daily_sales_range query_rows ! i) =
                  (if f64 (daily_sales (query_rows ! i)) < lo \<or> hi < f64 (daily_sales (query_rows ! i))
                   then 85 else 100)))
       \<and> map daily_sales sales_df = [10, 12, 11, 13, 9, 100]
       \<and> map scored_day.outlier_type (check_daily_sales_range sales_df)
           = [Normal, Normal, Normal, Normal, Normal, High]
       \<and> map scored_day.quality_score (check_daily_sales_range sales_df)
           = [100, 100, 100, 100, 100, 85]"
proof -
  let ?df = "read_daily_sales query_rows"
  let ?s = "map (\<lambda>r. f64 (daily_sales r)) query_rows"
  have s: "map daily_sales ?df = ?s" by (rule read_daily_sales_nth(3))
  from assms(1) have ne: "?s \<noteq> []" by simp
  from quantile_Some[OF ne] obtain q25 where q25: "quantile ?s (1 / 4) = Some q25" by blast
  from quantile_Some[OF ne] obtain q75 where q75: "quantile ?s (3 / 4) = Some q75" by blast
  let ?iqr = "fsub q75 q25"
  let ?lo = "fsub q25 (fmul (3 / 2) ?iqr)"
  let ?hi = "fadd q75 (fmul (3 / 2) ?iqr)"
  from bounds_of_quantiles[OF q25 q75]
  have lb: "lower_bound ?s = Some ?lo" and ub: "upper_bound ?s = Some ?hi" by simp_all
  have run: "check_daily_sales_range query_rows = map (score_day (Some ?lo) (Some ?hi)) ?df"
    by (simp add: check_daily_sales_range_def Let_def s lb ub)
  have len: "length (check_daily_sales_range query_rows) = length query_rows"
    by (simp add: run read_daily_sales_nth(1))
  have rows: "\<forall>i < length query_rows.
                daily_sales (check_daily_sales_range query_rows ! i) = f64 (daily_sales (query_rows ! i))
              \<and> scored_day.outlier_type (check_daily_sales_range query_rows ! i) =
                  (if f64 (daily_sales (query_rows ! i)) < ?lo then Low
                   else if ?hi < f64 (daily_sales (query_rows ! i)) then High else Normal)
              \<and> is_outlier (check_daily_sales_range query_rows ! i) =
                  (f64 (daily_sales (query_rows ! i)) < ?lo \<or> ?hi < f64 (daily_sales (query_rows ! i)))
              \<and> scored_day.quality_score (check_daily_sales_range query_rows ! i) =
                  (if f64 (daily_sales (query_rows ! i)) < ?lo \<or> ?hi < f64 (daily_sales (query_rows ! i))
                   then 85 else 100)"
  proof (intro allI impI)
    fix i assume i: "i < length query_rows"
    then have nth: "check_daily_sales_range query_rows ! i = score_day (Some ?lo) (Some ?hi) (?df ! i)"
      by (simp add: run read_daily_sales_nth(1))
    from i have v: "daily_sales (?df ! i) = f64 (daily_sales (query_rows ! i))"
      by (rule read_daily_sales_nth(2))
    from score_day_Some[of ?lo ?hi "?df ! i"]
    show "daily_sales (check_daily_sales_range query_rows ! i) = f64 (daily_sales (query_rows ! i))
              \<and> scored_day.outlier_type (check_daily_sales_range query_rows ! i) =
                  (if f64 (daily_sales (query_rows ! i)) < ?lo then Low
                   else if ?hi < f64 (daily_sales (query_rows ! i)) then High else Normal)
              \<and> is_outlier (check_daily_sales_range query_rows ! i) =
                  (f64 (daily_sales (query_rows ! i)) < ?lo \<or> ?hi < f64 (daily_sales (query_rows ! i)))
              \<and> scored_day.quality_score (check_daily_sales_range query_rows ! i) =
                  (if f64 (daily_sales (query_rows ! i)) < ?lo \<or> ?hi < f64 (daily_sales (query_rows ! i))
                   then 85 else 100)"
      unfolding nth v by blast
  qed
  have general: "\<exists>q25 q75 iqr lo hi.
            quantile ?s (1 / 4) = Some q25
          \<and> quantile ?s (3 / 4) = Some q75
          \<and> iqr = fsub q75 q25
          \<and> lo = fsub q25 (fmul (3 / 2) iqr)
          \<and> hi = fadd q75 (fmul (3 / 2) iqr)
          \<and> length (check_daily_sales_range query_rows) = length query_rows
          \<and> (\<forall>i < length query_rows.
                daily_sales (check_daily_sales_range query_rows ! i) = f64 (daily_sales (query_rows ! i))
              \<and> scored_day.outlier_type (check_daily_sales_range query_rows ! i) =
                  (if f64 (daily_sales (query_rows ! i)) < lo then Low
                   else if hi < f64 (daily_sales (query_rows ! i)) then High else Normal)
              \<and> is_outlier (check_daily_sales_range query_rows ! i) =
                  (f64 (daily_sales (query_rows ! i)) < lo \<or> hi < f64 (daily_sales (query_rows ! i)))
              \<and> scored_day.quality_score (check_daily_sales_range query_rows ! i) =
                  (if f64 (daily_sales (query_rows ! i)) < lo \<or> hi < f64 (daily_sales (query_rows ! i))
                   then 85 else 100))"
    by (rule exI[of _ q25], rule exI[of _ q75], rule exI[of _ ?iqr], rule exI[of _ ?lo],
        rule exI[of _ ?hi]) (intro conjI q25 q75 refl len rows)
  have series: "map daily_sales sales_df = [10, 12, 11, 13, 9, 100]"
    by (simp add: sales_df_def day_def)
  from general series sales_df_tags show ?thesis by (intro conjI) (elim conjE, assumption)+
qed

theorem daily_sales_iqr_outliers_witness:
  "sales_df \<noteq> []
   \<and> list_all (\<lambda>r. \<bar>daily_sales r\<bar> \<le> 2 ^ 1000) sales_df
   \<and> quantile (map (\<lambda>r. f64 (daily_sales r)) sales_df) (1 / 4) = Some (41 / 4)
   \<and> quantile (map (\<lambda>r. f64 (daily_sales r)) sales_df) (3 / 4) = Some (51 / 4)
   \<and> f64 (daily_sales (sales_df ! 5)) = 100
   \<and> scored_day.outlier_type (check_daily_sales_range sales_df ! 5) = High
   \<and> scored_day.quality_score (check_daily_sales_range sales_df ! 5) = 85
   \<and> f64 (daily_sales (sales_df ! 0)) = 10
   \<and> scored_day.outlier_type (check_daily_sales_range sales_df ! 0) = Normal
   \<and> scored_day.quality_score (check_daily_sales_range sales_df ! 0) = 100"
proof -
  have ne: "sales_df \<noteq> []" by (simp add: sales_df_def)
  have bounded: "list_all (\<lambda>r. \<bar>daily_sales r\<bar> \<le> 2 ^ 1000) sales_df"
    by (simp add: sales_df_def day_def)
  then have bd: "\<forall>r \<in> set sales_df. \<bar>daily_sales r\<bar> \<le> 2 ^ 1000"
    by (simp add: list_all_iff)
  have series: "map (\<lambda>r. f64 (daily_sales r)) sales_df = [10, 12, 11, 13, 9, 100]"
    by (simp add: sales_df_def day_def f64_small_ints)
  have len: "length sales_df = 6" by (simp add: sales_df_def)
  have v5: "f64 (daily_sales (sales_df ! 5)) = 100" by (simp add: sales_df_def day_def f64_small_ints)
  have v0: "f64 (daily_sales (sales_df ! 0)) = 10" by (simp add: sales_df_def day_def f64_small_ints)
  from daily_sales_iqr_outliers[OF ne bd] obtain q25 q75 iqr lo hi where
    a: "quantile (map (\<lambda>r. f64 (daily_sales r)) sales_df) (1 / 4) = Some q25"
    and b: "quantile (map (\<lambda>r. f64 (daily_sales r)) sales_df) (3 / 4) = Some q75"
    and iqr: "iqr = fsub q75 q25"
    and lo: "lo = fsub q25 (fmul (3 / 2) iqr)"
    and hi: "hi = fadd q75 (fmul (3 / 2) iqr)"
    and tags: "\<forall>i < length sales_df.
         scored_day.outlier_type (check_daily_sales_range sales_df ! i) =
           (if f64 (daily_sales (sales_df ! i)) < lo then Low
            else if hi < f64 (daily_sales (sales_df ! i)) then High else Normal)"
    and scores: "\<forall>i < length sales_df.
         scored_day.quality_score (check_daily_sales_range sales_df ! i) =
           (if f64 (daily_sales (sales_df ! i)) < lo \<or> hi < f64 (daily_sales (sales_df ! i))
            then 85 else 100)"
    by blast
  from a have q25: "q25 = 41 / 4" by (simp add: series sales_q25)
  from b have q75: "q75 = 51 / 4" by (simp add: series sales_q75)
  from iqr have iqr': "iqr = 5 / 2" by (simp add: q25 q75 fsub_def f64_small_ints)
  from lo have lo': "lo = 13 / 2" by (simp add: q25 iqr' fsub_def fmul_def f64_small_ints)
  from hi have hi': "hi = 33 / 2" by (simp add: q75 iqr' fadd_def fmul_def f64_small_ints)
  from tags have t5: "scored_day.outlier_type (check_daily_sales_range sales_df ! 5) = High"
    by (simp add: len v5 lo' hi')
  from scores have s5: "scored_day.quality_score (check_daily_sales_range sales_df ! 5) = 85"
    by (simp add: len v5 lo' hi')
  from tags have t0: "scored_day.outlier_type (check_daily_sales_range sales_df ! 0) = Normal"
    by (simp add: len v0 lo' hi')
  from scores have s0: "scored_day.quality_score (check_daily_sales_range sales_df ! 0) = 100"
    by (simp add: len v0 lo' hi')
  from ne bounded a b v5 t5 s5 v0 t0 s0 show ?thesis unfolding q25 q75 by (intro conjI)
qed

text \<open>
  Amounts that are not doubles are compared as the doubles they are read into, against
  bounds that are rounded at every step. \<open>8.4\<close> is read as a double just above the upper
  bound that the code computes for \<open>[0.6, 2.4, 4.4, 4.8, 8.4]\<close>, though in exact
  arithmetic that bound is \<open>8.4\<close> itself; likewise \<open>0.7\<close> falls below the lower bound
  computed for \<open>[0.7, 1.0, 1.1, 1.2, 1.5]\<close>.
\<close>

lemma decimal_doubles:
  "f64 (3 / 5) = 5404319552844595 / 9007199254740992"
  "f64 (12 / 5) = 5404319552844595 / 2251799813685248"
  "f64 (22 / 5) = 2476979795053773 / 562949953421312"
  "f64 (24 / 5) = 5404319552844595 / 1125899906842624"
  "f64 (42 / 5) = 4728779608739021 / 562949953421312"
  by (simp_all add: f64_eval)

lemma decimal_series_tags:
  "map scored_day.outlier_type (check_daily_sales_range decimal_df)
     = [Normal, Normal, Normal, Normal, High]"
  by (simp add: check_daily_sales_range_def read_daily_sales_def decimal_df_def day_def
      quantile_def lerp_def lower_bound_def upper_bound_def score_day_def lt_nan_def gt_nan_def
      daily_row.defs f64_eval)

lemma decimal_series2_tags:
  "map scored_day.outlier_type (check_daily_sales_range decimal_df2)
     = [Low, Normal, Normal, Normal, Normal]"
  by (simp add: check_daily_sales_range_def read_daily_sales_def decimal_df2_def day_def
      quantile_def lerp_def lower_bound_def upper_bound_def score_day_def lt_nan_def gt_nan_def
      daily_row.defs f64_eval)

subsection \<open>Missing customer rate\<close>

text \<open>
  Claim C6. For every per-date missing-customer rate \<open>x\<close> (a percentage),
  \<open>check_missing_customer_rate\<close> gives status Good when \<open>x \<le> 5\<close>, Warning when
  \<open>5 < x \<le> 10\<close> and Critical when \<open>x > 10\<close>, and score 100 when \<open>x \<le> 5\<close> and
  \<open>max(50, 100 - (x - 5) 10)\<close> otherwise, each row being scored on its own rate. A date
  with 100 transactions of which 94 carry a customer key (6 missing) gets rate 6.00,
  status Warning and score 90.
\<close>

theorem missing_customer_status_and_score:
  "status_of_rate x = (if x \<le> 5 then Good else if x \<le> 10 then Warning else Critical)
   \<and> score_of_rate x = (if x \<le> 5 then 100 else max 50 (100 - (x - 5) * 10))
   \<and> map missing_customer_rate (check_missing_customer_rate gs) = map rate_of_counts gs
   \<and> map missing_row.quality_status (check_missing_customer_rate gs)
       = map (\<lambda>g. status_of_rate (rate_of_counts g)) gs
   \<and> map missing_row.quality_score (check_missing_customer_rate gs)
       = map (\<lambda>g. score_of_rate (rate_of_counts g)) gs
   \<and> check_missing_customer_rate
         [\<lparr>date_value = d, total_transactions = 100, transactions_with_customer = 94\<rparr>]
       = [\<lparr>date_value = d, total_transactions = 100, transactions_with_customer = 94,
           missing_customers = 6, missing_customer_rate = 6, quality_status = Warning,
           quality_score = 90\<rparr>]"
  by (simp add: status_of_rate_def score_of_rate_def threshold_missing_def
      check_missing_customer_rate_def missing_of_counts_def customer_counts.defs
      rate_of_counts_def sql_round2_def floor_rat_numeral)

subsection \<open>Quality checks\<close>

lemma run_checks_eq:
  "run_checks db now cs (acc, s) =
     (acc @ map (run_quality_check db now) cs, fold update_summary (map (run_quality_check db now) cs) s)"
  by (induction cs arbitrary: acc s) (simp_all add: Let_def)

lemma run_categories_eq:
  "run_categories db now rules (cats, s) =
     (cats @ map (\<lambda>(category, checks). (category, map (run_quality_check db now) checks)) rules,
      fold update_summary (concat (map (\<lambda>(category, checks). map (run_quality_check db now) checks) rules)) s)"
  by (induction rules arbitrary: cats s) (auto simp: run_checks_eq)

lemma total_checks_fold:
  "total_checks (fold update_summary rs s) = total_checks s + length rs"
  by (induction rs arbitrary: s) (simp_all add: update_summary_def Let_def)

lemma critical_failures_fold:
  "critical_failures (fold update_summary rs s) =
     critical_failures s + length (filter (\<lambda>r. \<not> passed r \<and> check_result.critical r) rs)"
  by (induction rs arbitrary: s) (simp_all add: update_summary_def Let_def)

lemma run_all_checks_categories:
  "check_categories (run_all_checks db now) =
     map (\<lambda>(category, checks). (category, map (run_quality_check db now) checks)) quality_rules"
  by (simp add: run_all_checks_def run_categories_eq)

lemma run_all_checks_critical:
  "overall_status (run_all_checks db now) = CRITICAL_FAILURE \<longleftrightarrow>
     (\<exists>c \<in> set (concat (map snd quality_rules)).
        \<not> passed (run_quality_check db now c) \<and> check_result.critical (run_quality_check db now c))"
proof -
  let ?rs = "concat (map (\<lambda>(category, checks). map (run_quality_check db now) checks) quality_rules)"
  have rs: "?rs = map (run_quality_check db now) (concat (map snd quality_rules))"
    by (simp add: quality_rules_def)
  have "overall_status (run_all_checks db now) = CRITICAL_FAILURE \<longleftrightarrow>
          0 < length (filter (\<lambda>r. \<not> passed r \<and> check_result.critical r) ?rs)"
    by (simp add: run_all_checks_def run_categories_eq critical_failures_fold del: length_greater_0_conv)
  also have "\<dots> \<longleftrightarrow> (\<exists>r \<in> set ?rs. \<not> passed r \<and> check_result.critical r)"
    by (simp add: filter_empty_conv)
  also have "\<dots> \<longleftrightarrow> (\<exists>c \<in> set (concat (map snd quality_rules)).
        \<not> passed (run_quality_check db now c) \<and> check_result.critical (run_quality_check db now c))"
    unfolding rs by auto
  finally show ?thesis .
qed

lemma evaluate_row_count:
  assumes "result ''raw_count'' = Some (Some raw_n)" and "result ''fact_count'' = Some (Some fact_n)"
  shows "evaluate_check_result row_count_validation result
           = Inr (raw_n \<noteq> 0 \<and> 95 / 100 \<le> fact_n / raw_n)"
  using assms
  by (simp add: evaluate_check_result_def row_count_validation_def dict_get_def py_num_def
      py_div_def py_ge_def py_binop_def Let_def)

lemma row_count_validation_in_rules: "row_count_validation \<in> set (concat (map snd quality_rules))"
  by (simp add: quality_rules_def)

text \<open>
  Claim C7. When the query of the row-count-validation check returns the counts
  \<open>raw_count\<close> and \<open>fact_count\<close>, the check passes if and only if \<open>raw_count\<close> is not
  zero and \<open>fact_count / raw_count \<ge> 0.95\<close>. The check is marked critical, so whenever it
  fails the overall status of the report is \<open>CRITICAL_FAILURE\<close>; with \<open>raw_count = 1000\<close>
  and \<open>fact_count = 940\<close> it fails. The division and the threshold are exact rationals.
\<close>

theorem row_count_validation_critical:
  assumes "db ''row_count_validation'' = Inr (Some result)"
    and "result ''raw_count'' = Some (Some raw_n)"
    and "result ''fact_count'' = Some (Some fact_n)"
  shows "evaluate_check_result row_count_validation result
           = Inr (raw_n \<noteq> 0 \<and> 95 / 100 \<le> fact_n / raw_n)
       \<and> passed (run_quality_check db now row_count_validation)
           = (raw_n \<noteq> 0 \<and> 95 / 100 \<le> fact_n / raw_n)
       \<and> check_result.critical (run_quality_check db now row_count_validation)
       \<and> (\<not> (raw_n \<noteq> 0 \<and> 95 / 100 \<le> fact_n / raw_n)
            \<longrightarrow> overall_status (run_all_checks db now) = CRITICAL_FAILURE)"
proof -
  have ev: "evaluate_check_result row_count_validation result
              = Inr (raw_n \<noteq> 0 \<and> 95 / 100 \<le> fact_n / raw_n)"
    using assms(2,3) by (rule evaluate_row_count)
  have nm: "name row_count_validation = ''row_count_validation''"
    by (simp add: row_count_validation_def)
  have p: "passed (run_quality_check db now row_count_validation)
             = (raw_n \<noteq> 0 \<and> 95 / 100 \<le> fact_n / raw_n)"
    by (simp add: run_quality_check_def nm assms(1) ev)
  have c: "check_result.critical (run_quality_check db now row_count_validation)"
    by (simp add: run_quality_check_def nm assms(1) ev) (simp add: row_count_validation_def)
  have "overall_status (run_all_checks db now) = CRITICAL_FAILURE"
    if "\<not> (raw_n \<noteq> 0 \<and> 95 / 100 \<le> fact_n / raw_n)"
  proof -
    from that p have "\<not> passed (run_quality_check db now row_count_validation)" by simp
    with c row_count_validation_in_rules show ?thesis
      unfolding run_all_checks_critical by blast
  qed
  with ev p c show ?thesis by blast
qed

theorem row_count_validation_critical_witness:
  "db_940 ''row_count_validation'' = Inr (Some [''raw_count'' \<mapsto> Some 1000, ''fact_count'' \<mapsto> Some 940])
   \<and> evaluate_check_result row_count_validation [''raw_count'' \<mapsto> Some 1000, ''fact_count'' \<mapsto> Some 940]
       = Inr False
   \<and> \<not> passed (run_quality_check db_940 ''2026-01-01T00:00:00+08:00'' row_count_validation)
   \<and> check_result.critical (run_quality_check db_940 ''2026-01-01T00:00:00+08:00'' row_count_validation)
   \<and> overall_status (run_all_checks db_940 ''2026-01-01T00:00:00+08:00'') = CRITICAL_FAILURE"
proof -
  let ?res = "[''raw_count'' \<mapsto> Some (1000::rat), ''fact_count'' \<mapsto> Some 940]"
  have a: "db_940 ''row_count_validation'' = Inr (Some ?res)" by (simp add: db_940_def)
  have b: "?res ''raw_count'' = Some (Some 1000)" by simp
  have c: "?res ''fact_count'' = Some (Some 940)" by simp
  from row_count_validation_critical[where db = db_940 and result = ?res and raw_n = 1000
      and fact_n = 940 and now = "''2026-01-01T00:00:00+08:00''", OF a b c] a
  show ?thesis by simp
qed

text \<open>
  Claim C8. Whatever the database answers, exceptions included, \<open>run_all_checks\<close> runs
  every check of every category: the report holds, category by category and in order, the
  result of \<open>run_quality_check\<close> on each of the seven checks. A check whose query raises
  is recorded as failed (\<open>passed = False\<close>) with its name, its critical flag and the
  message of the exception.
\<close>

theorem failing_check_recorded_batch_continues:
  "check_categories (run_all_checks db now) =
     map (\<lambda>(category, checks). (category, map (run_quality_check db now) checks)) quality_rules
   \<and> map (\<lambda>(category, rs). (category, map check_name rs)) (check_categories (run_all_checks db now)) =
     map (\<lambda>(category, checks). (category, map name checks)) quality_rules
   \<and> total_checks (summary (run_all_checks db now)) = 7
   \<and> (db (name check) = Inl e \<longrightarrow>
        run_quality_check db now check =
          \<lparr>check_name = name check, description = check.description check, results = Map.empty,
           passed = False, critical = check.critical check, threshold = None,
           error = Some (str_of_error e), timestamp = now\<rparr>)"
proof -
  have names: "check_name (run_quality_check db now c) = name c" for c
    by (simp add: run_quality_check_def failed_result_def Let_def split: sum.splits)
  have a: "check_categories (run_all_checks db now) =
     map (\<lambda>(category, checks). (category, map (run_quality_check db now) checks)) quality_rules"
    by (rule run_all_checks_categories)
  have b: "map (\<lambda>(category, rs). (category, map check_name rs)) (check_categories (run_all_checks db now)) =
     map (\<lambda>(category, checks). (category, map name checks)) quality_rules"
    unfolding a by (simp add: quality_rules_def names)
  have c: "total_checks (summary (run_all_checks db now)) = 7"
    by (simp add: run_all_checks_def run_categories_eq total_checks_fold) (simp add: quality_rules_def)
  have d: "db (name check) = Inl e \<longrightarrow>
        run_quality_check db now check =
          \<lparr>check_name = name check, description = check.description check, results = Map.empty,
           passed = False, critical = check.critical check, threshold = None,
           error = Some (str_of_error e), timestamp = now\<rparr>"
    by (simp add: run_quality_check_def failed_result_def)
  from a b c d show ?thesis by blast
qed

theorem failing_check_recorded_batch_continues_witness:
  "db_down (name duplicate_records) = Inl (DBError ''connection lost'')
   \<and> run_quality_check db_down ''2026-01-01T00:00:00+08:00'' duplicate_records =
        \<lparr>check_name = ''duplicate_records'', description = ''Check for duplicate records'',
         results = Map.empty, passed = False, critical = False, threshold = None,
         error = Some ''connection lost'', timestamp = ''2026-01-01T00:00:00+08:00''\<rparr>
   \<and> map (\<lambda>(category, rs). (category, map check_name rs)) (check_categories (run_all_checks db_down ''2026-01-01T00:00:00+08:00'')) =
       [(''raw_data_checks'', [''null_critical_fields'', ''duplicate_records'', ''data_range_validation'']),
        (''warehouse_checks'', [''referential_integrity'', ''business_logic'']),
        (''performance_checks'', [''data_freshness'', ''row_count_validation''])]"
proof -
  have a: "db_down (name duplicate_records) = Inl (DBError ''connection lost'')"
    by (simp add: db_down_def duplicate_records_def)
  note inst = failing_check_recorded_batch_continues[of db_down "''2026-01-01T00:00:00+08:00''" duplicate_records
      "DBError ''connection lost''"]
  from inst have names:
    "map (\<lambda>(category, rs). (category, map check_name rs)) (check_categories (run_all_checks db_down ''2026-01-01T00:00:00+08:00'')) =
     map (\<lambda>(category, checks). (category, map name checks)) quality_rules"
    by (elim conjE)
  from inst a have failed: "run_quality_check db_down ''2026-01-01T00:00:00+08:00'' duplicate_records =
          \<lparr>check_name = name duplicate_records,
           description = check.description duplicate_records, results = Map.empty,
           passed = False, critical = check.critical duplicate_records, threshold = None,
           error = Some (str_of_error (DBError ''connection lost'')), timestamp = ''2026-01-01T00:00:00+08:00''\<rparr>"
    by (elim conjE) (erule mp)
  have rules: "map (\<lambda>(category, checks). (category, map name checks)) quality_rules =
       [(''raw_data_checks'', [''null_critical_fields'', ''duplicate_records'', ''data_range_validation'']),
        (''warehouse_checks'', [''referential_integrity'', ''business_logic'']),
        (''performance_checks'', [''data_freshness'', ''row_count_validation''])]"
    by (simp add: duplicate_records_def quality_rules_def null_critical_fields_def
        data_range_validation_def referential_integrity_def business_logic_def data_freshness_def
        row_count_validation_def)
  have fields: "name duplicate_records = ''duplicate_records''"
    "check.description duplicate_records = ''Check for duplicate records''"
    "check.critical duplicate_records = False"
    by (simp_all add: duplicate_records_def)
  from a failed names show ?thesis
    unfolding rules fields by simp
qed

subsection \<open>Fact load\<close>

lemma concat_batches: "0 < n \<Longrightarrow> concat (batches n xs) = xs"
proof (induction n xs rule: batches.induct)
  case (1 n xs)
  show ?case
  proof (cases "xs = []")
    case True
    then show ?thesis by (simp add: batches.simps[of n "[]"])
  next
    case False
    with "1.prems" have "concat (batches n (drop n xs)) = drop n xs"
      by (intro "1.IH") simp_all
    with False "1.prems" show ?thesis by (simp add: batches.simps[of n xs])
  qed
qed

lemma load_batches_append:
  "load_batches flt k Append bs (Some acc) = (None, t') \<Longrightarrow> t' = Some (acc @ concat bs)"
proof (induction bs arbitrary: k acc)
  case Nil then show ?case by simp
next
  case (Cons b bs)
  show ?case
  proof (cases "batch_ok flt k")
    case False
    with Cons.prems show ?thesis by (simp add: to_sql_def)
  next
    case True
    with Cons.prems have "load_batches flt (Suc k) Append bs (Some (acc @ b)) = (None, t')"
      by (simp add: to_sql_def)
    from Cons.IH[OF this] show ?thesis by simp
  qed
qed

lemma load_batches_all_ok:
  "\<forall>k. batch_ok flt k \<Longrightarrow> load_batches flt k Append bs (Some acc) = (None, Some (acc @ concat bs))"
  by (induction bs arbitrary: k acc) (simp_all add: to_sql_def)

lemma load_fact_empty:
  "load_fact flt now [] tname Replace t =
     (Inr \<lparr>table_name = tname, rows_loaded = 0, load_timestamp = now\<rparr>, t)"
  by (simp add: load_fact_def batches.simps[of _ "[]"])

lemma load_fact_nonempty_result:
  assumes "df \<noteq> []" and "load_fact flt now df tname Replace t = (Inr st, t')"
  shows "t' = Some df \<and> rows_loaded st = length df"
proof -
  from assms obtain old where t: "t = Some old" and tr: "truncate_ok flt"
    by (cases t; cases "truncate_ok flt") (auto simp: load_fact_def truncate_table_def Let_def)
  from assms t tr obtain e t'' where lb: "load_batches flt 0 Append (batches batch_size df) (Some []) = (e, t'')"
    by (cases "load_batches flt 0 Append (batches batch_size df) (Some [])") auto
  with assms t tr have e: "e = None" and t'': "t'' = t'" and st: "rows_loaded st = length df"
    by (auto simp: load_fact_def truncate_table_def Let_def split: option.splits)
  from load_batches_append[OF lb[unfolded e]] have "t'' = Some (concat (batches batch_size df))" by simp
  then show ?thesis using t'' st by (simp add: concat_batches batch_size_def)
qed

lemma load_fact_nonempty_ok:
  assumes "df \<noteq> []" and "truncate_ok flt" and "\<forall>k. batch_ok flt k" and "t \<noteq> None"
  shows "load_fact flt now df tname Replace t =
     (Inr \<lparr>table_name = tname, rows_loaded = length df, load_timestamp = now\<rparr>, Some df)"
proof -
  from assms(4) obtain old where t: "t = Some old" by auto
  show ?thesis using assms(1,2)
    by (simp add: load_fact_def truncate_table_def t load_batches_all_ok[OF assms(3)]
        concat_batches batch_size_def)
qed

text \<open>
  Claim C9, as amended. For every non-empty fact dataset loaded with replace semantics,
  \<open>load_fact\<close> first truncates the fact table and then appends the rows in batches, so
  after a successful load the table holds exactly the rows of the dataset and none of its
  earlier contents; the load succeeds when the table exists and the database accepts the
  truncate and every batch. For an empty dataset \<open>load_fact\<close> issues no statement (the
  truncate is guarded by \<open>total_rows > 0\<close>) and leaves the table as it was.
\<close>

theorem load_fact_replace_nonempty:
  "(df \<noteq> [] \<longrightarrow>
      (\<forall>st t'. load_fact flt now df tname Replace t = (Inr st, t')
          \<longrightarrow> t' = Some df \<and> rows_loaded st = length df))
   \<and> (df \<noteq> [] \<and> truncate_ok flt \<and> (\<forall>k. batch_ok flt k) \<and> t \<noteq> None \<longrightarrow>
        load_fact flt now df tname Replace t =
          (Inr \<lparr>table_name = tname, rows_loaded = length df, load_timestamp = now\<rparr>, Some df))
   \<and> load_fact flt now [] tname Replace t =
        (Inr \<lparr>table_name = tname, rows_loaded = 0, load_timestamp = now\<rparr>, t)"
proof -
  have a: "df \<noteq> [] \<longrightarrow>
      (\<forall>st t'. load_fact flt now df tname Replace t = (Inr st, t')
          \<longrightarrow> t' = Some df \<and> rows_loaded st = length df)"
  proof (intro impI allI)
    fix st t'
    assume "df \<noteq> []" and "load_fact flt now df tname Replace t = (Inr st, t')"
    then show "t' = Some df \<and> rows_loaded st = length df" by (rule load_fact_nonempty_result)
  qed
  have b: "df \<noteq> [] \<and> truncate_ok flt \<and> (\<forall>k. batch_ok flt k) \<and> t \<noteq> None \<longrightarrow>
        load_fact flt now df tname Replace t =
          (Inr \<lparr>table_name = tname, rows_loaded = length df, load_timestamp = now\<rparr>, Some df)"
  proof
    assume h: "df \<noteq> [] \<and> truncate_ok flt \<and> (\<forall>k. batch_ok flt k) \<and> t \<noteq> None"
    from h have "df \<noteq> []" "truncate_ok flt" "\<forall>k. batch_ok flt k" "t \<noteq> None" by simp_all
    then show "load_fact flt now df tname Replace t =
          (Inr \<lparr>table_name = tname, rows_loaded = length df, load_timestamp = now\<rparr>, Some df)"
      by (rule load_fact_nonempty_ok)
  qed
  have c: "load_fact flt now [] tname Replace t =
        (Inr \<lparr>table_name = tname, rows_loaded = 0, load_timestamp = now\<rparr>, t)"
    by (rule load_fact_empty)
  from a b c show ?thesis by (intro conjI)
qed

theorem load_fact_replace_nonempty_witness:
  "[new_fact] \<noteq> [] \<and> truncate_ok all_ok \<and> (\<forall>k. batch_ok all_ok k) \<and> Some [old_fact] \<noteq> None
   \<and> load_fact all_ok ''2026-01-01T00:00:00+08:00'' [new_fact] ''fact_sales'' Replace (Some [old_fact]) =
        (Inr \<lparr>table_name = ''fact_sales'', rows_loaded = length [new_fact],
              load_timestamp = ''2026-01-01T00:00:00+08:00''\<rparr>, Some [new_fact])"
proof -
  have h: "[new_fact] \<noteq> [] \<and> truncate_ok all_ok \<and> (\<forall>k. batch_ok all_ok k) \<and> Some [old_fact] \<noteq> None"
    by (simp add: all_ok_def)
  from load_fact_replace_nonempty[of "[new_fact]" all_ok "''2026-01-01T00:00:00+08:00''"
      "''fact_sales''" "Some [old_fact]"]
  have "[new_fact] \<noteq> [] \<and> truncate_ok all_ok \<and> (\<forall>k. batch_ok all_ok k) \<and> Some [old_fact] \<noteq> None \<longrightarrow>
        load_fact all_ok ''2026-01-01T00:00:00+08:00'' [new_fact] ''fact_sales'' Replace (Some [old_fact]) =
        (Inr \<lparr>table_name = ''fact_sales'', rows_loaded = length [new_fact],
              load_timestamp = ''2026-01-01T00:00:00+08:00''\<rparr>, Some [new_fact])"
    by (elim conjE)
  with h show ?thesis by blast
qed

text \<open>
  Claim C9 as stated fails on the empty dataset: loaded with replace semantics over a
  table that holds one row, the load succeeds and the table still holds that row.
\<close>

theorem load_fact_empty_keeps_table_counterexample:
  "load_fact all_ok ''2026-01-01T00:00:00+08:00'' [] ''fact_sales'' Replace (Some [old_fact]) =
     (Inr \<lparr>table_name = ''fact_sales'', rows_loaded = 0,
           load_timestamp = ''2026-01-01T00:00:00+08:00''\<rparr>, Some [old_fact])
   \<and> Some [old_fact] \<noteq> Some ([] :: fact_row list)"
proof
  show "load_fact all_ok ''2026-01-01T00:00:00+08:00'' [] ''fact_sales'' Replace (Some [old_fact]) =
     (Inr \<lparr>table_name = ''fact_sales'', rows_loaded = 0,
           load_timestamp = ''2026-01-01T00:00:00+08:00''\<rparr>, Some [old_fact])"
    by (rule load_fact_empty)
  show "Some [old_fact] \<noteq> Some ([] :: fact_row list)" by simp
qed

subsection \<open>Drop rate of the extraction\<close>

lemma round_half_even_near: "\<bar>of_int (round_half_even y) - y\<bar> \<le> 1 / 2"
proof -
  have a: "of_int \<lfloor>y\<rfloor> \<le> y" and b: "y < of_int \<lfloor>y\<rfloor> + 1" by linarith+
  show ?thesis unfolding round_half_even_def Let_def using a b by (auto simp: abs_le_iff)
qed

lemma pow2_pos: "0 < pow2 e"
  by (simp add: pow2_def)

lemma pow2_zero: "pow2 0 = 1"
  by (simp add: pow2_def)

lemma pow2_step: "pow2 (e - 1) * 2 = pow2 e"
proof (cases "0 < e")
  case True
  then have "nat e = Suc (nat (e - 1))" by simp
  with True show ?thesis by (simp add: pow2_def)
next
  case False
  then have "nat (1 - e) = Suc (nat (- e))" by simp
  with False show ?thesis by (simp add: pow2_def)
qed

lemma pow2_low: "e \<le> - 1074 \<Longrightarrow> pow2 e \<le> 1 / 2 ^ 60"
proof -
  assume h: "e \<le> - 1074"
  then have "(2::rat) ^ 60 \<le> 2 ^ nat (- e)" by (intro power_increasing) simp_all
  then have "1 / (2::rat) ^ nat (- e) \<le> 1 / 2 ^ 60" by (intro frac_le) simp_all
  with h show ?thesis by (simp add: pow2_def)
qed

lemma scale_up_inv:
  "0 < a \<Longrightarrow> scale_up a e = (m, e') \<Longrightarrow>
   m * pow2 e' = a * pow2 e \<and> 0 < m \<and> (two_p52 \<le> m \<or> e' \<le> - 1074)"
proof (induction a e rule: scale_up.induct)
  case (1 a e)
  show ?case
  proof (cases "a < two_p52 \<and> - 1074 < e")
    case True
    with "1.prems"(2) have run: "scale_up (a * 2) (e - 1) = (m, e')"
      by (simp add: scale_up.simps[of a e])
    from "1.prems"(1) have pos: "0 < a * 2" by simp
    from "1.IH"[OF True pos run]
    have "m * pow2 e' = a * 2 * pow2 (e - 1)" and rest: "0 < m \<and> (two_p52 \<le> m \<or> e' \<le> - 1074)"
      by simp_all
    moreover have "a * 2 * pow2 (e - 1) = a * pow2 e"
      using pow2_step[of e] by (simp add: mult.assoc mult.commute)
    ultimately show ?thesis by simp
  next
    case False
    with "1.prems"(2) have "m = a" "e' = e" by (simp_all add: scale_up.simps[of a e])
    with False "1.prems"(1) show ?thesis by auto
  qed
qed

lemma f64_error:
  assumes "\<bar>x\<bar> < 2 * two_p52"
  shows "\<bar>f64 x - x\<bar> \<le> \<bar>x\<bar> / 2 ^ 53 + 1 / 2 ^ 61"
proof (cases "x = 0")
  case True
  then show ?thesis by (simp add: f64_def)
next
  case False
  then have pos: "0 < \<bar>x\<bar>" by simp
  obtain m e where run: "scale_up \<bar>x\<bar> 0 = (m, e)" by (cases "scale_up \<bar>x\<bar> 0")
  from scale_up_inv[OF pos run]
  have eq: "m * pow2 e = \<bar>x\<bar>" and m: "0 < m" and cases: "two_p52 \<le> m \<or> e \<le> - 1074"
    by (simp_all add: pow2_zero)
  let ?r = "of_int (round_half_even m) :: rat"
  from False assms have f: "f64 x = sgn x * ?r * pow2 e"
    by (simp add: f64_def run)
  have x: "x = sgn x * (m * pow2 e)" unfolding eq by (simp add: sgn_mult_abs)
  have "f64 x - x = sgn x * ((?r - m) * pow2 e)"
    unfolding f by (subst (2) x) (simp add: algebra_simps)
  then have "\<bar>f64 x - x\<bar> = \<bar>sgn x\<bar> * (\<bar>?r - m\<bar> * pow2 e)"
    using pow2_pos[of e] by (simp add: abs_mult)
  also have "\<dots> = \<bar>?r - m\<bar> * pow2 e" using False by (simp add: abs_sgn_eq)
  also have "\<dots> \<le> (1 / 2) * pow2 e"
    using round_half_even_near[of m] pow2_pos[of e] by (intro mult_right_mono) simp_all
  finally have err: "\<bar>f64 x - x\<bar> \<le> pow2 e / 2" by simp
  from cases show ?thesis
  proof
    assume big: "two_p52 \<le> m"
    have "pow2 e * two_p52 \<le> pow2 e * m"
      using big pow2_pos[of e] by (intro mult_left_mono) simp_all
    also have "\<dots> = \<bar>x\<bar>" using eq by (simp add: mult.commute)
    finally have "pow2 e \<le> \<bar>x\<bar> / 2 ^ 52" by (simp add: two_p52_def field_simps)
    then have "pow2 e / 2 \<le> \<bar>x\<bar> / 2 ^ 53" by simp
    with err show ?thesis by simp
  next
    assume "e \<le> - 1074"
    from pow2_low[OF this] have "pow2 e / 2 \<le> 1 / 2 ^ 61" by simp
    moreover have "0 \<le> \<bar>x\<bar> / 2 ^ 53" by simp
    ultimately show ?thesis using err by linarith
  qed
qed

lemma drop_rate_near:
  assumes "0 \<le> p" and "p \<le> 1"
  shows "\<exists>k::int. py_round2 (fmul (f64 p) 100) = f64 (of_int k / 100)
            \<and> \<bar>of_int k / 100 - p * 100\<bar> \<le> 1 / 200 + 1 / 10 ^ 12"
proof -
  let ?q = "f64 p"
  let ?x = "fmul ?q 100"
  let ?k = "round_half_even (?x * 100)"
  define c :: rat where "c = 1 / 2 ^ 53 + 1 / 2 ^ 61"
  define d :: rat where "d = 200 / 2 ^ 53 + 1 / 2 ^ 61"
  have c: "c \<le> 1 / 1000000000000000" and d: "d \<le> 1 / 10000000000000"
    by (simp_all add: c_def d_def)
  from assms have "\<bar>p\<bar> < 2 * two_p52" by (simp add: two_p52_def)
  from f64_error[OF this] have "\<bar>?q - p\<bar> \<le> \<bar>p\<bar> / 2 ^ 53 + 1 / 2 ^ 61" .
  moreover from assms have "\<bar>p\<bar> / 2 ^ 53 \<le> 1 / 2 ^ 53" by simp
  ultimately have q: "\<bar>?q - p\<bar> \<le> c" unfolding c_def by linarith
  with c assms have "\<bar>?q\<bar> \<le> 2" by linarith
  then have qb: "\<bar>?q * 100\<bar> \<le> 200" by (simp add: abs_mult)
  then have "\<bar>?q * 100\<bar> < 2 * two_p52" by (simp add: two_p52_def)
  from f64_error[OF this] have "\<bar>?x - ?q * 100\<bar> \<le> \<bar>?q * 100\<bar> / 2 ^ 53 + 1 / 2 ^ 61"
    unfolding fmul_def .
  moreover from qb have "\<bar>?q * 100\<bar> / 2 ^ 53 \<le> 200 / 2 ^ 53" by (intro divide_right_mono) simp_all
  ultimately have x: "\<bar>?x - ?q * 100\<bar> \<le> d" unfolding d_def by linarith
  from round_half_even_near[of "?x * 100"] have k: "\<bar>of_int ?k / 100 - ?x\<bar> \<le> 1 / 200"
    by (simp add: abs_le_iff field_simps)
  from q have q100: "\<bar>?q * 100 - p * 100\<bar> \<le> c * 100" by linarith
  from k x q100 c d have "\<bar>of_int ?k / 100 - p * 100\<bar> \<le> 1 / 200 + 1 / 1000000000000"
    by linarith
  then have "\<bar>of_int ?k / 100 - p * 100\<bar> \<le> 1 / 200 + 1 / 10 ^ 12" by simp
  moreover have "py_round2 ?x = f64 (of_int ?k / 100)" by (simp add: py_round2_def)
  ultimately show ?thesis by blast
qed

lemma drop_rate_close:
  assumes "0 \<le> p" and "p \<le> 1"
  shows "\<bar>py_round2 (fmul (f64 p) 100) - p * 100\<bar> \<le> 1 / 200 + 1 / 10 ^ 11"
proof -
  from drop_rate_near[OF assms] obtain k :: int where
    r: "py_round2 (fmul (f64 p) 100) = f64 (of_int k / 100)"
    and k: "\<bar>of_int k / 100 - p * 100\<bar> \<le> 1 / 200 + 1 / 10 ^ 12" by blast
  let ?y = "of_int k / 100 :: rat"
  define d :: rat where "d = 101 / 2 ^ 53 + 1 / 2 ^ 61"
  have d: "d \<le> 1 / 10000000000000" by (simp add: d_def)
  from k have k': "\<bar>?y - p * 100\<bar> \<le> 1 / 200 + 1 / 1000000000000" by simp
  with assms have yb: "\<bar>?y\<bar> \<le> 101" by linarith
  then have "\<bar>?y\<bar> < 2 * two_p52" by (simp add: two_p52_def)
  from f64_error[OF this] have "\<bar>f64 ?y - ?y\<bar> \<le> \<bar>?y\<bar> / 2 ^ 53 + 1 / 2 ^ 61" .
  moreover from yb have "\<bar>?y\<bar> / 2 ^ 53 \<le> 101 / 2 ^ 53" by (intro divide_right_mono) simp_all
  ultimately have "\<bar>f64 ?y - ?y\<bar> \<le> d" unfolding d_def by linarith
  with k' d have "\<bar>f64 ?y - p * 100\<bar> \<le> 1 / 200 + 1 / 100000000000" by linarith
  then show ?thesis unfolding r by simp
qed

lemma clean_data_ok:
  assumes "\<forall>c \<in> set required_cols. c \<in> set (columns df)"
    and "''UnitPrice'' \<in> set (columns df)" and "''Quantity'' \<in> set (columns df)"
  shows "\<exists>out st. clean_data now df = Inr (out, st) \<and> length out \<le> length (rows df)"
proof -
  let ?w = "map flag_row (filter has_critical_fields (rows df))"
  have "length (drop_dups_from DEDUP_KEYS [] ?w) \<le> length ?w"
    by (rule list_emb_length[OF ddf_subseq])
  also have "\<dots> \<le> length (rows df)" by simp
  finally have le: "length (drop_dups_from DEDUP_KEYS [] ?w) \<le> length (rows df)" .
  have "clean_data now df =
     Inr (map (finish_row now) (drop_duplicates DEDUP_KEYS ?w),
          \<lparr>null_drops = length (rows df) - length (filter has_critical_fields (rows df)),
           invalid_price_count = length (filter invalid_price_mask (filter has_critical_fields (rows df))),
           high_quantity_count = length (filter high_qty_mask (filter has_critical_fields (rows df))),
           return_count = length (filter return_mask (filter has_critical_fields (rows df))),
           duplicates_removed = length ?w - length (drop_duplicates DEDUP_KEYS ?w)\<rparr>)"
    using assms by (simp add: clean_data_def Let_def)
  moreover have "length (map (finish_row now) (drop_duplicates DEDUP_KEYS ?w)) \<le> length (rows df)"
    using le by (simp add: drop_duplicates_def)
  ultimately show ?thesis by blast
qed

lemma extract_from_excel_run:
  assumes "clean_data now (rename_columns df) = Inr (out, st)"
  shows "extract_from_excel now (Inr df) =
     (if rows df = [] then Inl ZeroDivisionError
      else Inr (out, extract_stats.extend st
                 \<lparr>initial_rows = length (rows df), final_rows = length out,
                  rows_dropped = int (length (rows df)) - int (length out),
                  drop_rate = py_round2 (fmul (f64 ((of_nat (length (rows df)) - of_nat (length out))
                                          / of_nat (length (rows df)))) 100)\<rparr>))"
  by (simp add: extract_from_excel_def assms py_truediv_def Let_def)

lemma drop_rate_two_thirds: "py_round2 (fmul (f64 ((of_nat 3 - of_nat 1) / of_nat 3)) 100) = f64 (6667 / 100)"
  by (simp add: py_round2_def f64_eval)

text \<open>
  Claim C10. For a source with every needed column and no row, \<open>extract_from_excel\<close>
  raises \<open>ZeroDivisionError\<close> while computing \<open>drop_rate\<close>, and nothing catches it, so no
  (dataframe, stats) pair is returned. For a source with at least one row it returns, and
  \<open>drop_rate\<close> is the dropped fraction times 100 rounded to two decimals, as the code
  computes it in \<open>float64\<close>: the quotient of the two counts rounded to a double, its
  product with 100 rounded to a double, and \<open>round(_, 2)\<close> of that product. The result is
  the double nearest to a multiple of \<open>0.01\<close> that lies within \<open>0.005\<close> of the exact
  percentage, up to the error of the two float operations (below \<open>1e-12\<close>).
\<close>

theorem extract_drop_rate:
  assumes "set (required_cols @ [''UnitPrice'', ''Quantity''])
             \<subseteq> set (map column_mapping (columns df))"
  shows "(rows df = [] \<longrightarrow> extract_from_excel now (Inr df) = Inl ZeroDivisionError)
       \<and> (rows df \<noteq> [] \<longrightarrow>
            (\<exists>out st. extract_from_excel now (Inr df) = Inr (out, st)
               \<and> initial_rows st = length (rows df)
               \<and> final_rows st = length out
               \<and> length out \<le> length (rows df)
               \<and> rows_dropped st = int (length (rows df)) - int (length out)
               \<and> drop_rate st =
                   py_round2 (fmul (f64 ((of_nat (length (rows df)) - of_nat (length out))
                                           / of_nat (length (rows df)))) 100)
               \<and> (\<exists>k::int. drop_rate st = f64 (of_int k / 100)
                      \<and> \<bar>(of_int k / 100 :: rat) - (of_nat (length (rows df)) - of_nat (length out))
                                               / of_nat (length (rows df)) * 100\<bar>
                          \<le> 1 / 200 + 1 / 10 ^ 12)
               \<and> \<bar>drop_rate st - (of_nat (length (rows df)) - of_nat (length out))
                                     / of_nat (length (rows df)) * 100\<bar>
                   \<le> 1 / 200 + 1 / 10 ^ 11))"
proof -
  let ?df = "rename_columns df"
  have c1: "\<forall>c \<in> set required_cols. c \<in> set (columns ?df)"
    using assms by (auto simp: rename_columns_def)
  have c2: "''UnitPrice'' \<in> set (columns ?df)"
    using assms by (auto simp: rename_columns_def)
  have c3: "''Quantity'' \<in> set (columns ?df)"
    using assms by (auto simp: rename_columns_def)
  have rws: "rows ?df = rows df" by (simp add: rename_columns_def)
  from clean_data_ok[OF c1 c2 c3, of now] obtain out st where
    cd: "clean_data now ?df = Inr (out, st)" and le: "length out \<le> length (rows df)"
    unfolding rws by blast
  note run = extract_from_excel_run[OF cd]
  have zero: "rows df = [] \<longrightarrow> extract_from_excel now (Inr df) = Inl ZeroDivisionError"
    by (simp add: run)
  have pos: "rows df \<noteq> [] \<longrightarrow> (\<exists>out st. extract_from_excel now (Inr df) = Inr (out, st)
               \<and> initial_rows st = length (rows df)
               \<and> final_rows st = length out
               \<and> length out \<le> length (rows df)
               \<and> rows_dropped st = int (length (rows df)) - int (length out)
               \<and> drop_rate st =
                   py_round2 (fmul (f64 ((of_nat (length (rows df)) - of_nat (length out))
                                           / of_nat (length (rows df)))) 100)
               \<and> (\<exists>k::int. drop_rate st = f64 (of_int k / 100)
                      \<and> \<bar>(of_int k / 100 :: rat) - (of_nat (length (rows df)) - of_nat (length out))
                                               / of_nat (length (rows df)) * 100\<bar>
                          \<le> 1 / 200 + 1 / 10 ^ 12)
               \<and> \<bar>drop_rate st - (of_nat (length (rows df)) - of_nat (length out))
                                     / of_nat (length (rows df)) * 100\<bar>
                   \<le> 1 / 200 + 1 / 10 ^ 11)"
  proof
    assume ne: "rows df \<noteq> []"
    let ?x = "fmul (f64 ((of_nat (length (rows df)) - of_nat (length out)) / of_nat (length (rows df)))) 100"
    let ?st = "extract_stats.extend st
                 \<lparr>initial_rows = length (rows df), final_rows = length out,
                  rows_dropped = int (length (rows df)) - int (length out),
                  drop_rate = py_round2 ?x\<rparr>"
    have r: "extract_from_excel now (Inr df) = Inr (out, ?st)"
      using ne by (simp add: run)
    have f1: "initial_rows ?st = length (rows df)" by (simp add: extract_stats.defs)
    have f2: "final_rows ?st = length out" by (simp add: extract_stats.defs)
    have f3: "drop_rate ?st = py_round2 ?x" by (simp add: extract_stats.defs)
    have f4: "rows_dropped ?st = int (length (rows df)) - int (length out)"
      by (simp add: extract_stats.defs)
    let ?p = "(of_nat (length (rows df)) - of_nat (length out)) / of_nat (length (rows df)) :: rat"
    from ne have n: "0 < (of_nat (length (rows df)) :: rat)" by simp
    from le have d: "(of_nat (length out) :: rat) \<le> of_nat (length (rows df))" by simp
    from n d have p0: "0 \<le> ?p" by simp
    from n d have p1: "?p \<le> 1" by simp
    from drop_rate_near[OF p0 p1]
    have f5: "\<exists>k::int. drop_rate ?st = f64 (of_int k / 100)
                \<and> \<bar>of_int k / 100 - ?p * 100\<bar> \<le> 1 / 200 + 1 / 10 ^ 12"
      unfolding f3 .
    from drop_rate_close[OF p0 p1]
    have f6: "\<bar>drop_rate ?st - ?p * 100\<bar> \<le> 1 / 200 + 1 / 10 ^ 11"
      unfolding f3 .
    show "\<exists>out st. extract_from_excel now (Inr df) = Inr (out, st)
               \<and> initial_rows st = length (rows df)
               \<and> final_rows st = length out
               \<and> length out \<le> length (rows df)
               \<and> rows_dropped st = int (length (rows df)) - int (length out)
               \<and> drop_rate st =
                   py_round2 (fmul (f64 ((of_nat (length (rows df)) - of_nat (length out))
                                           / of_nat (length (rows df)))) 100)
               \<and> (\<exists>k::int. drop_rate st = f64 (of_int k / 100)
                      \<and> \<bar>(of_int k / 100 :: rat) - (of_nat (length (rows df)) - of_nat (length out))
                                               / of_nat (length (rows df)) * 100\<bar>
                          \<le> 1 / 200 + 1 / 10 ^ 12)
               \<and> \<bar>drop_rate st - (of_nat (length (rows df)) - of_nat (length out))
                                     / of_nat (length (rows df)) * 100\<bar>
                   \<le> 1 / 200 + 1 / 10 ^ 11"
      by (rule exI[of _ out], rule exI[of _ ?st]) (intro conjI r f1 f2 le f4 f3 f5 f6)
  qed
  from zero pos show ?thesis by (rule conjI)
qed

theorem extract_drop_rate_witness:
  "set (required_cols @ [''UnitPrice'', ''Quantity''])
     \<subseteq> set (map column_mapping (columns (frame0\<lparr>rows := []\<rparr>)))
   \<and> rows (frame0\<lparr>rows := []\<rparr>) = []
   \<and> extract_from_excel (1, 0) (Inr (frame0\<lparr>rows := []\<rparr>)) = Inl ZeroDivisionError
   \<and> set (required_cols @ [''UnitPrice'', ''Quantity''])
     \<subseteq> set (map column_mapping (columns frame0))
   \<and> rows frame0 \<noteq> []
   \<and> (\<exists>out st. extract_from_excel (1, 0) (Inr frame0) = Inr (out, st)
         \<and> initial_rows st = 3 \<and> final_rows st = 1 \<and> drop_rate st = f64 (6667 / 100))"
proof -
  have c0: "set (required_cols @ [''UnitPrice'', ''Quantity''])
     \<subseteq> set (map column_mapping (columns (frame0\<lparr>rows := []\<rparr>)))"
    by (simp add: required_cols_def frame0_def column_mapping_def)
  have c1: "set (required_cols @ [''UnitPrice'', ''Quantity''])
     \<subseteq> set (map column_mapping (columns frame0))"
    by (simp add: required_cols_def frame0_def column_mapping_def)
  have r0: "rows (frame0\<lparr>rows := []\<rparr>) = []" by simp
  have r1: "rows frame0 \<noteq> []" by (simp add: frame0_def)
  have l1: "length (rows frame0) = 3" by (simp add: frame0_def)
  from extract_drop_rate[OF c0, of "(1, 0)"] r0
  have z: "extract_from_excel (1, 0) (Inr (frame0\<lparr>rows := []\<rparr>)) = Inl ZeroDivisionError"
    by blast
  from extract_drop_rate[OF c1, of "(1, 0)"] r1 obtain out st where
    run: "extract_from_excel (1, 0) (Inr frame0) = Inr (out, st)"
    and i: "initial_rows st = length (rows frame0)"
    and f: "final_rows st = length out"
    and d: "drop_rate st = py_round2 (fmul (f64 ((of_nat (length (rows frame0)) - of_nat (length out))
                                / of_nat (length (rows frame0)))) 100)"
    by blast
  have cols: "rename_columns frame0 = frame0"
    by (simp add: rename_columns_def frame0_def column_mapping_def)
  from run have "out = [finish_row (1, 0) (flag_row row0)]"
    by (simp add: extract_from_excel_def cols clean_data_frame0 py_truediv_def l1 Let_def)
  then have lo: "length out = 1" by simp
  from d have d': "drop_rate st = f64 (6667 / 100)"
    unfolding l1 lo by (simp only: drop_rate_two_thirds)
  from i f have "initial_rows st = 3" "final_rows st = 1" by (simp_all add: l1 lo)
  with run d' have "\<exists>out st. extract_from_excel (1, 0) (Inr frame0) = Inr (out, st)
         \<and> initial_rows st = 3 \<and> final_rows st = 1 \<and> drop_rate st = f64 (6667 / 100)"
    by blast
  with c0 r0 z c1 r1 show ?thesis by (intro conjI)
qed

text \<open>
  The rounding is that of the float product, not of the exact percentage: 93 rows dropped
  of 160 are \<open>58.125\<close> per cent and the code reports \<open>58.13\<close>, 23 dropped of 160 are
  \<open>14.375\<close> per cent and the code reports \<open>14.37\<close>.
\<close>

lemma drop_rate_ties:
  "py_round2 (fmul (f64 (93 / 160)) 100) = f64 (5813 / 100)"
  "py_round2 (fmul (f64 (23 / 160)) 100) = f64 (1437 / 100)"
  by (simp_all add: py_round2_def f64_eval)

end
